theory Spec2Isabelle
  imports Complex_Main "HOL-Library.Sublist"
begin

section \<open>Strings as Python sees them\<close>

text \<open>
  A Python \<open>str\<close> is modelled as a \<open>string\<close> whose characters are the code points
  0..255 (the Latin-1 range, which covers the German texts this tool handles). The
  predicates below are Python's \<open>str.isspace\<close>, \<open>str.isdigit\<close>, \<open>str.isalpha\<close>
  and \<open>str.lower\<close> on that range.
\<close>

definition isspace :: "char \<Rightarrow> bool" where
  "isspace c = ((of_char c :: nat) \<in> {9, 10, 11, 12, 13, 28, 29, 30, 31, 32, 133, 160})"

definition isdigit :: "char \<Rightarrow> bool" where
  "isdigit c = (let n = (of_char c :: nat) in (48 \<le> n \<and> n \<le> 57) \<or> n = 178 \<or> n = 179 \<or> n = 185)"

definition isalpha :: "char \<Rightarrow> bool" where
  "isalpha c = (let n = (of_char c :: nat) in
     (65 \<le> n \<and> n \<le> 90) \<or> (97 \<le> n \<and> n \<le> 122) \<or> n = 170 \<or> n = 181 \<or> n = 186 \<or>
     (192 \<le> n \<and> n \<le> 214) \<or> (216 \<le> n \<and> n \<le> 246) \<or> (248 \<le> n \<and> n \<le> 255))"

definition lower_char :: "char \<Rightarrow> char" where
  "lower_char c = (let n = (of_char c :: nat) in
     if (65 \<le> n \<and> n \<le> 90) \<or> (192 \<le> n \<and> n \<le> 214) \<or> (216 \<le> n \<and> n \<le> 222)
     then char_of (n + 32) else c)"

definition lower :: "string \<Rightarrow> string" where
  "lower s = map lower_char s"

text \<open>\<open>s.strip()\<close>: whitespace removed at both ends.\<close>

definition strip :: "string \<Rightarrow> string" where
  "strip s = rev (dropWhile isspace (rev (dropWhile isspace s)))"

text \<open>\<open>s.split(sep)\<close> for a one-character separator: always at least one part.\<close>

fun split_on :: "char \<Rightarrow> string \<Rightarrow> string list" where
  "split_on sep [] = [[]]"
| "split_on sep (c # cs) =
     (if c = sep then [] # split_on sep cs
      else (case split_on sep cs of [] \<Rightarrow> [[c]] | p # ps \<Rightarrow> (c # p) # ps))"

text \<open>
  \<open>sep.join(parts)\<close>; the same function on lists of any kind puts a separator between
  consecutive blocks of a story.
\<close>

fun join :: "'a list \<Rightarrow> 'a list list \<Rightarrow> 'a list" where
  "join sep [] = []"
| "join sep [p] = p"
| "join sep (p # q # ps) = p @ sep @ join sep (q # ps)"

section \<open>converter.py: identifier and text normalizers\<close>

text \<open>\<open>_norm_klasse\<close> (converter.py, lines 31--40).\<close>

definition norm_klasse :: "string \<Rightarrow> string" where
  "norm_klasse raw =
     (if raw = [] then []
      else
        let s = strip raw;
            s = filter (\<lambda>c. c \<noteq> CHR '' '') s;
            s = (if length s = 2 \<and> s ! 0 = CHR ''0'' \<and> isdigit (s ! 1) then [s ! 1] else s)
        in if length s \<ge> 2 \<and> isalpha (last s) then butlast s @ [lower_char (last s)] else s)"

text \<open>
  \<open>_anrede_from_reference\<close> (converter.py, lines 87--104). On a string no step of the
  body can raise, so the \<open>try\<close> has no branch of its own.
\<close>

definition anrede_from_reference :: "string \<Rightarrow> string" where
  "anrede_from_reference ref =
     (if ref = [] then []
      else
        let parts = split_on CHR ''-'' (strip ref) in
        if length parts \<ge> 2 then
          (let middle = parts ! 1 in
           if middle \<noteq> [] \<and> (last middle = CHR ''3'' \<or> last middle = CHR ''4'')
           then (if last middle = CHR ''3'' then ''Herr'' else ''Frau'')
           else [])
        else [])"

text \<open>
  Two auxiliary notions for reasoning about \<open>norm_klasse\<close>: the part of its body after
  the whitespace has been removed, and the strings that whitespace removal leaves alone.
\<close>

definition norm_core :: "string \<Rightarrow> string" where
  "norm_core s0 =
     (let s = (if length s0 = 2 \<and> s0 ! 0 = CHR ''0'' \<and> isdigit (s0 ! 1) then [s0 ! 1] else s0)
      in if length s \<ge> 2 \<and> isalpha (last s) then butlast s @ [lower_char (last s)] else s)"

definition tidy :: "string \<Rightarrow> bool" where
  "tidy s = ((s = [] \<or> (\<not> isspace (hd s) \<and> \<not> isspace (last s))) \<and> CHR '' '' \<notin> set s)"

text \<open>The first two steps of \<open>_norm_klasse\<close>: \<open>strip()\<close>, then \<open>replace(" ", "")\<close>.\<close>

definition despace :: "string \<Rightarrow> string" where
  "despace raw = filter (\<lambda>c. c \<noteq> CHR '' '') (strip raw)"

section \<open>converter.py: the roster export\<close>

text \<open>
  The XML tree is read through \<open>find\<close>/\<open>findall\<close> only, so an element is modelled by what
  those calls can see. A \<open>string option\<close> is the text of the first node at a path:
  \<open>None\<close> when there is no such node or the node has no text.
  \<open>_get_text_ns\<close> (lines 21--28) trims that text and defaults to the empty string.
\<close>

definition get_text_ns :: "string option \<Rightarrow> string" where
  "get_text_ns t = (case t of None \<Rightarrow> [] | Some s \<Rightarrow> strip s)"

text \<open>
  A \<open>person\<close> element: the texts at \<open>name/n/given\<close>, \<open>name/n/family\<close>, \<open>name/fn\<close>,
  \<open>sourcedid/id\<close> and \<open>email\<close>, and the \<open>institutionroletype\<close> attribute of each
  \<open>institutionrole\<close> child (\<open>None\<close> when the attribute is missing).
\<close>

record person =
  given :: "string option"
  family :: "string option"
  fn :: "string option"
  sourcedid :: "string option"
  institutionroles :: "string option list"
  email :: "string option"

text \<open>
  A \<open>membership\<close> element: the text at \<open>sourcedid/id\<close> (the group id) and, for each
  \<open>member\<close> child in document order, the text at its \<open>sourcedid/id\<close>.
\<close>

record membership =
  group_id :: "string option"
  members :: "string option list"

record roster =
  persons :: "person list"
  memberships :: "membership list"

text \<open>
  \<open>_klasse_from_membership_id\<close> (lines 43--49): \<open>re.search\<close> of
  \<open>klasse-([^-\s]+)\<close>, ignoring case. The search tries each start position from the left;
  at a position the literal must match and the greedy group must take at least one character.
\<close>

definition klasse_token :: "string \<Rightarrow> string" where
  "klasse_token rest = takeWhile (\<lambda>c. c \<noteq> CHR ''-'' \<and> \<not> isspace c) rest"

fun klasse_search :: "string \<Rightarrow> string option" where
  "klasse_search [] = None"
| "klasse_search (c # cs) =
     (if lower (take 7 (c # cs)) = ''klasse-'' \<and> klasse_token (drop 7 (c # cs)) \<noteq> []
      then Some (klasse_token (drop 7 (c # cs)))
      else klasse_search cs)"

definition klasse_from_membership_id :: "string \<Rightarrow> string" where
  "klasse_from_membership_id gid =
     (if gid = [] then []
      else (case klasse_search gid of Some tok \<Rightarrow> tok | None \<Rightarrow> []))"

text \<open>
  \<open>_build_membership_class_map\<close> (lines 52--64). The dictionary is a map; the inner loop
  over the members and the outer loop over the memberships are the two functions below.
\<close>

fun add_members :: "string \<Rightarrow> string option list \<Rightarrow> (string \<rightharpoonup> string) \<Rightarrow> (string \<rightharpoonup> string)" where
  "add_members klasse [] result = result"
| "add_members klasse (member # rest) result =
     (let person_id = get_text_ns member
      in add_members klasse rest (if person_id \<noteq> [] then result(person_id \<mapsto> klasse) else result))"

fun membership_loop :: "membership list \<Rightarrow> (string \<rightharpoonup> string) \<Rightarrow> (string \<rightharpoonup> string)" where
  "membership_loop [] result = result"
| "membership_loop (m # rest) result =
     (let gid = get_text_ns (group_id m);
          klasse_raw = klasse_from_membership_id gid;
          klasse = norm_klasse klasse_raw
      in if klasse = [] then membership_loop rest result
         else membership_loop rest (add_members klasse (members m) result))"

definition build_membership_class_map :: "membership list \<Rightarrow> (string \<rightharpoonup> string)" where
  "build_membership_class_map ms = membership_loop ms Map.empty"

text \<open>\<open>_split_name\<close> (lines 67--80); the result is the pair (given, family).\<close>

definition split_name :: "person \<Rightarrow> string \<times> string" where
  "split_name p =
     (let g = get_text_ns (given p); f = get_text_ns (family p) in
      if g = [] \<and> f = [] then
        (let full = get_text_ns (fn p) in
         if full \<noteq> [] then
           (let parts = split_on CHR '' '' full in
            if length parts \<ge> 2 then (join '' '' (drop 1 parts), parts ! 0)
            else (full, []))
         else (g, f))
      else (g, f))"

definition read_reference :: "person \<Rightarrow> string" where
  "read_reference p = get_text_ns (sourcedid p)"

text \<open>\<open>_is_student\<close> and \<open>_is_teacher_like\<close> (lines 107--122).\<close>

definition role_type :: "string option \<Rightarrow> string" where
  "role_type r = lower (strip (case r of None \<Rightarrow> [] | Some t \<Rightarrow> t))"

definition is_student :: "person \<Rightarrow> bool" where
  "is_student p = list_ex (\<lambda>r. role_type r = ''student'') (institutionroles p)"

definition is_teacher_like :: "person \<Rightarrow> bool" where
  "is_teacher_like p =
     (list_ex (\<lambda>r. role_type r \<in> set [''faculty'', ''extern'', ''teacher'', ''staff''])
        (institutionroles p)
      \<or> (\<not> is_student p \<and> get_text_ns (email p) \<noteq> []))"

text \<open>
  \<open>ANTONConverter.convert\<close> (lines 132--184), from the parsed tree to the two row lists
  that are written out as CSV files. No step of the loop body can raise on this model, so
  the \<open>except\<close> branch is never taken.
\<close>

record schueler_row =
  s_Vorname :: string
  s_Nachname :: string
  s_Klasse :: string
  s_Referenz :: string

record lehr_row =
  l_Anrede :: string
  l_Vorname :: string
  l_Nachname :: string
  l_Referenz :: string

fun convert_loop ::
  "(string \<rightharpoonup> string) \<Rightarrow> person list \<Rightarrow> schueler_row list \<times> lehr_row list
     \<Rightarrow> schueler_row list \<times> lehr_row list" where
  "convert_loop klasse_lookup [] (schueler_rows, lehr_rows) = (schueler_rows, lehr_rows)"
| "convert_loop klasse_lookup (p # rest) (schueler_rows, lehr_rows) =
     (if is_student p then
        (let (vorname, nachname) = split_name p;
             ref = read_reference p;
             klasse = (case klasse_lookup ref of None \<Rightarrow> [] | Some k \<Rightarrow> k)
         in if vorname \<noteq> [] \<or> nachname \<noteq> []
            then convert_loop klasse_lookup rest
                   (schueler_rows @ [\<lparr>s_Vorname = vorname, s_Nachname = nachname,
                                       s_Klasse = klasse, s_Referenz = ref\<rparr>], lehr_rows)
            else convert_loop klasse_lookup rest (schueler_rows, lehr_rows))
      else if is_teacher_like p then
        (let (vorname, nachname) = split_name p;
             ref = read_reference p;
             anrede = anrede_from_reference ref
         in convert_loop klasse_lookup rest
              (schueler_rows, lehr_rows @ [\<lparr>l_Anrede = anrede, l_Vorname = vorname,
                                            l_Nachname = nachname, l_Referenz = ref\<rparr>]))
      else convert_loop klasse_lookup rest (schueler_rows, lehr_rows))"

definition convert :: "roster \<Rightarrow> schueler_row list \<times> lehr_row list" where
  "convert tree = convert_loop (build_membership_class_map (memberships tree)) (persons tree) ([], [])"

text \<open>
  For stating what the resolver computes: the class code derived for a membership record
  (as in the loop body, lines 55--57) and the member identifiers it lists (the non-empty
  texts of lines 61--62).
\<close>

definition membership_klasse :: "membership \<Rightarrow> string" where
  "membership_klasse m = norm_klasse (klasse_from_membership_id (get_text_ns (group_id m)))"

definition member_ids :: "membership \<Rightarrow> string list" where
  "member_ids m = filter (\<lambda>i. i \<noteq> []) (map get_text_ns (members m))"

section \<open>pdf\_generator.py: the tabular record loader\<close>

text \<open>One record of the loader's result: the dictionary built at lines 219--226.\<close>

record anton_row =
  Anrede :: string
  Vorname :: string
  Nachname :: string
  Klasse :: string
  Referenz :: string
  Code :: string

text \<open>\<open>list.index\<close> with the \<open>ValueError\<close> turned into \<open>-1\<close>, as \<open>idx\<close> does (lines 175--179).\<close>

fun index_of :: "'a \<Rightarrow> 'a list \<Rightarrow> int" where
  "index_of x [] = - 1"
| "index_of x (y # ys) =
     (if x = y then 0 else (let j = index_of x ys in if j = - 1 then - 1 else j + 1))"

definition idx :: "string list \<Rightarrow> string \<Rightarrow> int" where
  "idx hdr_norm name = index_of (lower name) hdr_norm"

text \<open>The search for the login-code column (lines 186--191).\<close>

fun first_idx :: "string list \<Rightarrow> string list \<Rightarrow> int" where
  "first_idx hdr_norm [] = - 1"
| "first_idx hdr_norm (cand # rest) =
     (let j = idx hdr_norm cand in if j \<noteq> - 1 then j else first_idx hdr_norm rest)"

text \<open>What the header decides once per file (lines 173--193).\<close>

text \<open>The flag is the source's \<open>assume\<close>, renamed because that word is reserved here.\<close>

record binding =
  assume_positional :: bool
  i_anrede :: int
  i_v :: int
  i_n :: int
  i_k :: int
  i_r :: int
  i_c :: int

definition bind_header :: "string list \<Rightarrow> binding" where
  "bind_header header =
     (let hdr_norm = map (\<lambda>h. lower (strip h)) header;
          iv = idx hdr_norm ''vorname'';
          inn = idx hdr_norm ''nachname'';
          ik = idx hdr_norm ''klasse'';
          ir = idx hdr_norm ''referenz''
      in \<lparr>assume_positional = (min_list (case filter (\<lambda>x. x \<noteq> - 1) [iv, inn, ik, ir] of
                                [] \<Rightarrow> [- 1] | x # xs \<Rightarrow> x # xs) = - 1),
          i_anrede = idx hdr_norm ''anrede'',
          i_v = iv, i_n = inn, i_k = ik, i_r = ir,
          i_c = first_idx hdr_norm [''anmelde-code'', ''login-code'', ''logincode'', ''login_code'']\<rparr>)"

text \<open>
  \<open>(row[i] if i != -1 and len(row) > i else "").strip()\<close> and its positional form
  \<open>(row[k] if len(row) > k else "").strip()\<close>.
\<close>

definition cell :: "string list \<Rightarrow> int \<Rightarrow> string" where
  "cell row i = strip (if i \<noteq> - 1 \<and> int (length row) > i then row ! nat i else [])"

definition pos_cell :: "string list \<Rightarrow> nat \<Rightarrow> string" where
  "pos_cell row k = strip (if length row > k then row ! k else [])"

text \<open>The six values of one data row (lines 198--216).\<close>

definition bind_row :: "binding \<Rightarrow> string list \<Rightarrow> anton_row" where
  "bind_row b row =
     (if assume_positional b then
        \<lparr>Anrede = [], Vorname = pos_cell row 0, Nachname = pos_cell row 1,
         Klasse = pos_cell row 2, Referenz = pos_cell row 3, Code = pos_cell row 4\<rparr>
      else
        (let anr = cell row (i_anrede b);
             v = cell row (i_v b);
             n = cell row (i_n b);
             k = cell row (i_k b);
             r = cell row (i_r b);
             c = cell row (i_c b);
             v = (if v = [] \<and> length row > 0 then strip (row ! 0) else v);
             n = (if n = [] \<and> length row > 1 then strip (row ! 1) else n)
         in \<lparr>Anrede = anr, Vorname = v, Nachname = n, Klasse = k, Referenz = r, Code = c\<rparr>))"

text \<open>The loop over the data rows (lines 195--226): empty rows and rows without a name are skipped.\<close>

fun read_rows :: "binding \<Rightarrow> string list list \<Rightarrow> anton_row list \<Rightarrow> anton_row list" where
  "read_rows b [] rows = rows"
| "read_rows b (row # rest) rows =
     (if row = [] then read_rows b rest rows
      else (let rec = bind_row b row
            in if \<not> (Vorname rec \<noteq> [] \<or> Nachname rec \<noteq> []) then read_rows b rest rows
               else read_rows b rest (rows @ [rec])))"

text \<open>
  \<open>_read_anton_csv\<close> (lines 161--227) on what \<open>csv.reader\<close> yields: the header row and
  the data rows. A file without a header row gives the empty result.
\<close>

definition read_anton_csv :: "string list list \<Rightarrow> anton_row list" where
  "read_anton_csv parsed =
     (case parsed of [] \<Rightarrow> [] | header # body \<Rightarrow> read_rows (bind_header header) body [])"

section \<open>pdf\_generator.py: content blocks\<close>

text \<open>\<open>s.split()\<close>: the maximal runs of non-whitespace characters.\<close>

function split_ws :: "string \<Rightarrow> string list" where
  "split_ws s =
     (let t = dropWhile isspace s in
      if t = [] then []
      else takeWhile (\<lambda>c. \<not> isspace c) t # split_ws (dropWhile (\<lambda>c. \<not> isspace c) t))"
  by pat_completeness auto
termination
proof (relation "measure length")
  show "wf (measure length)" by simp
next
  fix s t :: string
  assume t: "t = dropWhile isspace s" and ne: "t \<noteq> []"
  from ne obtain c cs where cs: "t = c # cs" by (cases t) auto
  have "\<not> isspace (hd t)" using ne unfolding t by (rule hd_dropWhile)
  then have "dropWhile (\<lambda>c. \<not> isspace c) t = dropWhile (\<lambda>c. \<not> isspace c) cs"
    using cs by simp
  then have "length (dropWhile (\<lambda>c. \<not> isspace c) t) \<le> length cs"
    by (simp add: length_dropWhile_le)
  also have "\<dots> < length t" using cs by simp
  also have "\<dots> \<le> length s" unfolding t by (rule length_dropWhile_le)
  finally show "(dropWhile (\<lambda>c. \<not> isspace c) t, s) \<in> measure length" by simp
qed

declare split_ws.simps [simp del]

text \<open>The one exception the content builder could raise: \<open>split()[0]\<close> on a string of whitespace.\<close>

datatype py_error = IndexError

text \<open>\<open>(firstname or "").split()[0] if firstname else ""\<close> (lines 150, 267 and 359).\<close>

definition first_given :: "string \<Rightarrow> py_error + string" where
  "first_given firstname =
     (if firstname \<noteq> [] then
        (case split_ws firstname of [] \<Rightarrow> Inl IndexError | tok # _ \<Rightarrow> Inr tok)
      else Inr [])"

text \<open>
  What the generator reads from its surroundings: four settings, the pixel size of the logo
  image (\<open>None\<close> when the image cannot be read), and the font metric
  \<open>pdfmetrics.stringWidth(text, font_name, size)\<close> of the registered font. Lengths are real
  numbers here; the rounding of the source's floating-point arithmetic is not modelled.
\<close>

record env =
  pdf_antonlink :: string
  pdf_schoolgroup :: string
  pdf_onedoc :: string
  pdf_einzeln :: string
  logo_size :: "(nat \<times> nat) option"
  stringWidth :: "string \<Rightarrow> nat \<Rightarrow> real"

datatype style = Normal | Justify | Heading1

text \<open>
  The content blocks of a story. \<open>StickerTable\<close> is the table \<open>_sticker\<close> returns: whether
  it shows the logo, the two name lines, the font size chosen for the code, the code, the
  payload of its QR code, and the widths of the logo and name columns.
\<close>

datatype flowable =
    LogoImage real real
  | Spacer nat nat
  | Paragraph string style
  | QrDrawing string nat
  | Divider
  | StickerTable bool string string nat string string real real
  | PageBreak

text \<open>\<open>reportlab.lib.units.mm\<close>: \<open>inch = 72.0\<close>, \<open>cm = inch / 2.54\<close>, \<open>mm = cm * 0.1\<close>.\<close>

definition mm :: real where
  "mm = 72 / 2.54 * 0.1"

text \<open>
  \<open>code_font_that_fits\<close> (lines 282--291), with the variables of the enclosing \<open>_sticker\<close>
  as arguments: the font metric, the code, the two name lines and \<open>available_name_col\<close>.
  \<open>name_font\<close> is 8 and \<open>pad\<close> is 6.
\<close>

fun code_font_loop :: "(string \<Rightarrow> nat \<Rightarrow> real) \<Rightarrow> string \<Rightarrow> string \<Rightarrow> string \<Rightarrow> real \<Rightarrow> nat list \<Rightarrow> nat" where
  "code_font_loop sw code line0 line1 available_name_col [] = 8"
| "code_font_loop sw code line0 line1 available_name_col (fs # rest) =
     (let w = max (sw code fs) (max (sw line0 8) (sw line1 8)) + 2 * 6
      in if w \<le> available_name_col then fs
         else code_font_loop sw code line0 line1 available_name_col rest)"

definition candidates :: "nat list" where
  "candidates = [28, 26, 24, 22, 20, 18, 16, 14, 12, 10, 9, 8]"

definition code_font_that_fits :: "(string \<Rightarrow> nat \<Rightarrow> real) \<Rightarrow> string \<Rightarrow> string \<Rightarrow> string \<Rightarrow> real \<Rightarrow> nat" where
  "code_font_that_fits sw code line0 line1 available_name_col =
     code_font_loop sw code line0 line1 available_name_col candidates"

text \<open>\<open>_sticker\<close> (lines 252--327).\<close>

definition logo_w :: "(nat \<times> nat) option \<Rightarrow> real" where
  "logo_w logo =
     (case logo of
        None \<Rightarrow> 25 * mm
      | Some (iw, ih) \<Rightarrow> if iw \<noteq> 0 \<and> ih \<noteq> 0 then 25 * mm * (real iw / real ih) else 25 * mm)"

definition name_line :: "string \<Rightarrow> string" where
  "name_line s = (let t = strip (if s \<noteq> [] then s else '' '') in if t \<noteq> [] then t else '' '')"

definition available_name_col :: "(nat \<times> nat) option \<Rightarrow> real" where
  "available_name_col logo = 100 * mm - logo_w logo - 30 * mm"

definition sticker :: "env \<Rightarrow> string \<Rightarrow> string \<Rightarrow> string \<Rightarrow> py_error + flowable" where
  "sticker e firstname lastname code =
     (case first_given firstname of
        Inl err \<Rightarrow> Inl err
      | Inr fg \<Rightarrow>
          (let line0 = name_line fg;
               line1 = name_line lastname;
               code_font = code_font_that_fits (stringWidth e) code line0 line1
                             (available_name_col (logo_size e));
               name_col = max 0 (available_name_col (logo_size e));
               qr_data = (if code \<noteq> [] then code else fg @ '' '' @ lastname)
           in Inr (StickerTable (logo_size e \<noteq> None) line0 line1 code_font code qr_data
                     (logo_w (logo_size e)) name_col)))"

text \<open>
  \<open>_build_anton_story\<close> (lines 329--421). The text of the greeting (lines 348--369) is
  a function of its own; the story takes it from there.
\<close>

definition font :: "string \<Rightarrow> string \<Rightarrow> string" where
  "font sz txt = ''<font size='' @ sz @ ''>'' @ txt @ ''</font>''"

definition is_teacher :: "env \<Rightarrow> anton_row \<Rightarrow> bool" where
  "is_teacher e r = (strip (pdf_schoolgroup e) = ''2'' \<or> strip (Anrede r) \<noteq> [])"

definition greet :: "env \<Rightarrow> anton_row \<Rightarrow> py_error + string" where
  "greet e r =
     (let anrede = strip (Anrede r);
          firstname = strip (Vorname r);
          lastname = strip (Nachname r)
      in case first_given firstname of
           Inl err \<Rightarrow> Inl err
         | Inr fg \<Rightarrow>
             (if is_teacher e r then
                (let full_name = strip (strip (fg @ '' '' @ lastname))
                 in Inr (''Hallo '' @ full_name @ '',''))
              else
                (let full_name = strip (strip (fg @ '' '' @ lastname))
                 in if anrede \<noteq> [] then Inr (anrede @ '' '' @ full_name @ '','')
                    else Inr (''Hallo '' @ full_name @ '',''))))"

definition anton_link :: "env \<Rightarrow> string" where
  "anton_link e =
     (let l = strip (if pdf_antonlink e \<noteq> [] then pdf_antonlink e else ''https://www.anton.app'')
      in if l \<noteq> [] then l else ''https://www.anton.app'')"

definition build_anton_story :: "env \<Rightarrow> anton_row \<Rightarrow> py_error + flowable list" where
  "build_anton_story e r =
     (let firstname = strip (Vorname r);
          lastname = strip (Nachname r);
          code = strip (Code r);
          teacher = is_teacher e r
      in case greet e r of
           Inl err \<Rightarrow> Inl err
         | Inr greeting \<Rightarrow>
          (case sticker e firstname lastname code of
             Inl err \<Rightarrow> Inl err
           | Inr table \<Rightarrow>
               Inr ((case logo_size e of
                       None \<Rightarrow> []
                     | Some (iw, ih) \<Rightarrow>
                         [LogoImage 150 (if iw \<noteq> 0 then 150 / real iw * real ih else 150)])
                    @ [Spacer 1 12,
                       Paragraph (font ''14'' greeting) Justify,
                       Spacer 1 12,
                       Paragraph (font ''14'' (''Willkommen bei ANTON - der Lern-App f'' @ [CHR 0xFC]
                                                @ ''r die Schule.'')) Normal,
                       Spacer 1 12,
                       Paragraph (font ''14'' (if teacher
                          then ''F'' @ [CHR 0xFC] @ ''r Sie wurde ein Account angelegt.''
                          else ''F'' @ [CHR 0xFC] @ ''r dich wurde ein Account angelegt.'')) Normal,
                       Spacer 1 24,
                       Paragraph (font ''14'' (if teacher then ''Gehen Sie im Browser auf ''
                                                else ''Gehe im Browser auf '')) Normal,
                       Spacer 1 12,
                       Paragraph (font ''18'' (anton_link e)) Normal,
                       Spacer 1 12,
                       Paragraph (font ''14'' (if teacher
                          then ''oder laden Sie die kostenlose ANTON-App herunter.''
                          else ''oder lade dir die kostenlose ANTON-App herunter.'')) Normal,
                       Spacer 1 24]
                    @ (if code \<noteq> [] then
                         [Paragraph (font ''14'' (if teacher
                            then ''Sie k'' @ [CHR 0xF6] @ ''nnen sich mit folgendem Code bei ANTON einloggen:''
                            else ''Du kannst dich mit folgendem Code bei ANTON einloggen:'')) Normal,
                          Spacer 1 24,
                          Paragraph (font ''24'' code) Heading1,
                          Spacer 1 24,
                          Paragraph (font ''14'' (if teacher
                            then ''Oder Sie scannen in der ANTON-App diesen QR-Code:''
                            else ''Oder du scannst in der ANTON-App diesen QR-Code:'')) Normal,
                          Spacer 1 12,
                          QrDrawing code 200]
                       else [])
                    @ [Spacer 1 18, Divider, Spacer 1 12, table])))"

text \<open>
  A font metric for the examples: every glyph advances 0.6 of the font size, as in a
  fixed-pitch font.
\<close>

definition fixed_pitch_width :: "string \<Rightarrow> nat \<Rightarrow> real" where
  "fixed_pitch_width s fs = real (length s) * (real fs * 6 / 10)"

text \<open>
  Whether the code at size \<open>fs\<close> and both name lines at size 8, plus the padding on both
  sides, fit in the available column: the test of the loop in \<open>code_font_that_fits\<close>.
\<close>

definition fits :: "(string \<Rightarrow> nat \<Rightarrow> real) \<Rightarrow> string \<Rightarrow> string \<Rightarrow> string \<Rightarrow> real \<Rightarrow> nat \<Rightarrow> bool" where
  "fits sw code line0 line1 avail fs =
     (sw code fs + 12 \<le> avail \<and> sw line0 8 + 12 \<le> avail \<and> sw line1 8 + 12 \<le> avail)"

section \<open>pdf\_generator.py: grouping and pagination\<close>

text \<open>The name of the teacher bucket, "Lehrkr\"afte" with its umlaut as code point 0xE4.\<close>

definition lehrkraefte :: string where
  "lehrkraefte = ''Lehrkr'' @ [CHR 0xE4] @ ''fte''"

text \<open>The settings as \<open>generate\<close> reads them (lines 101--108).\<close>

definition one_doc :: "env \<Rightarrow> bool" where
  "one_doc e =
     (let onedoc_setting = lower (strip (pdf_onedoc e))
      in if onedoc_setting \<noteq> [] then onedoc_setting = ''ja''
         else lower (strip (pdf_einzeln e)) \<noteq> ''ja'')"

definition group_setting :: "env \<Rightarrow> string" where
  "group_setting e = (let g = strip (pdf_schoolgroup e) in if g \<noteq> [] then g else ''1'')"

text \<open>The bucket of one record (lines 113--118).\<close>

definition cls_of :: "env \<Rightarrow> anton_row \<Rightarrow> string" where
  "cls_of e r =
     (let cls_raw = strip (Klasse r)
      in if cls_raw = [] \<and> (group_setting e = ''2'' \<or> strip (Anrede r) \<noteq> []) then lehrkraefte
         else if cls_raw \<noteq> [] then cls_raw else ''ohne_klasse'')"

text \<open>
  \<open>classes[cls].append(r)\<close> on a dictionary that keeps its keys in insertion order, and the
  loop that fills it (lines 111--119).
\<close>

fun classes_append ::
  "string \<Rightarrow> anton_row \<Rightarrow> (string \<times> anton_row list) list \<Rightarrow> (string \<times> anton_row list) list" where
  "classes_append cls r [] = [(cls, [r])]"
| "classes_append cls r ((k, people) # rest) =
     (if k = cls then (k, people @ [r]) # rest else (k, people) # classes_append cls r rest)"

fun classes_loop ::
  "env \<Rightarrow> anton_row list \<Rightarrow> (string \<times> anton_row list) list \<Rightarrow> (string \<times> anton_row list) list" where
  "classes_loop e [] classes = classes"
| "classes_loop e (r # rest) classes = classes_loop e rest (classes_append (cls_of e r) r classes)"

text \<open>
  The story of one group (lines 129--140): \<open>n\<close> is \<open>len(people)\<close>, \<open>i\<close> is the source's \<open>idx\<close>, counting from 1.
  An exception in the content builder ends the whole run.
\<close>

fun story_loop ::
  "env \<Rightarrow> nat \<Rightarrow> nat \<Rightarrow> anton_row list \<Rightarrow> flowable list \<Rightarrow> py_error + flowable list" where
  "story_loop e n i [] story = Inr story"
| "story_loop e n i (r # rest) story =
     (case build_anton_story e r of
        Inl err \<Rightarrow> Inl err
      | Inr blocks \<Rightarrow>
          story_loop e n (i + 1) rest
            (story @ blocks @ (if i < n then [PageBreak] else [])))"

definition group_story :: "env \<Rightarrow> anton_row list \<Rightarrow> py_error + flowable list" where
  "group_story e people = story_loop e (length people) 1 people []"

definition output_filename :: "string \<Rightarrow> string \<Rightarrow> string" where
  "output_filename cls timestamp =
     (if cls = lehrkraefte then lehrkraefte @ ''_Zugangsdaten_'' @ timestamp @ ''.pdf''
      else cls @ ''_ANTON-Zugangsdaten_'' @ timestamp @ ''.pdf'')"

text \<open>
  The loop over the groups (lines 122--142); the result lists the documents built, each with
  its file name and story, in the order they are written.
\<close>

fun docs_loop ::
  "env \<Rightarrow> string \<Rightarrow> (string \<times> anton_row list) list \<Rightarrow> (string \<times> flowable list) list
     \<Rightarrow> py_error + (string \<times> flowable list) list" where
  "docs_loop e timestamp [] docs = Inr docs"
| "docs_loop e timestamp ((cls, people) # rest) docs =
     (case group_story e people of
        Inl err \<Rightarrow> Inl err
      | Inr story \<Rightarrow>
          docs_loop e timestamp rest (docs @ [(output_filename cls timestamp, story)]))"

text \<open>The loop of per-person mode (lines 144--155); \<open>strip("_")\<close> trims underscores.\<close>

definition strip_underscore :: "string \<Rightarrow> string" where
  "strip_underscore s =
     rev (dropWhile (\<lambda>c. c = CHR ''_'') (rev (dropWhile (\<lambda>c. c = CHR ''_'') s)))"

fun single_loop ::
  "env \<Rightarrow> string \<Rightarrow> anton_row list \<Rightarrow> (string \<times> flowable list) list
     \<Rightarrow> py_error + (string \<times> flowable list) list" where
  "single_loop e timestamp [] docs = Inr docs"
| "single_loop e timestamp (r # rest) docs =
     (case build_anton_story e r of
        Inl err \<Rightarrow> Inl err
      | Inr chunk \<Rightarrow>
          (case first_given (Vorname r) of
             Inl err \<Rightarrow> Inl err
           | Inr fg \<Rightarrow>
               (let person_name = strip_underscore (Klasse r @ ''_'' @ Nachname r @ '','' @ fg)
                in single_loop e timestamp rest
                     (docs @ [(person_name @ ''_'' @ timestamp @ ''.pdf'', chunk)]))))"

text \<open>
  \<open>PDFGenerator.generate\<close> (lines 84--158) from the rows the loader returned and the run's
  timestamp to the documents written. Progress output is left out.
\<close>

definition generate :: "env \<Rightarrow> string \<Rightarrow> anton_row list \<Rightarrow> py_error + (string \<times> flowable list) list" where
  "generate e timestamp rows =
     (if rows = [] then Inr []
      else if one_doc e then docs_loop e timestamp (classes_loop e rows []) []
      else single_loop e timestamp rows [])"

text \<open>The content blocks of one person, for stating what a group's story consists of.\<close>

definition person_blocks :: "env \<Rightarrow> anton_row \<Rightarrow> flowable list" where
  "person_blocks e r = (case build_anton_story e r of Inl err \<Rightarrow> [] | Inr blocks \<Rightarrow> blocks)"

section \<open>Properties\<close>

subsection \<open>Characters and whitespace removal\<close>

lemma of_char_lower_char:
  "(of_char (lower_char c) :: nat) =
     (let n = of_char c in
      if (65 \<le> n \<and> n \<le> 90) \<or> (192 \<le> n \<and> n \<le> 214) \<or> (216 \<le> n \<and> n \<le> 222) then n + 32 else n)"
  by (auto simp: lower_char_def Let_def)

lemma lower_char_idem: "lower_char (lower_char c) = lower_char c"
proof -
  have "(of_char (lower_char (lower_char c)) :: nat) = of_char (lower_char c)"
    by (simp add: of_char_lower_char Let_def)
  then show ?thesis by simp
qed

lemma isalpha_lower_char: "isalpha (lower_char c) = isalpha c"
  unfolding isalpha_def of_char_lower_char Let_def by (auto; arith)

lemma isalpha_not_isspace: "isalpha c \<Longrightarrow> \<not> isspace c"
  by (auto simp: isalpha_def isspace_def Let_def)

lemma isalpha_not_isdigit: "isalpha c \<Longrightarrow> \<not> isdigit c"
  by (auto simp: isalpha_def isdigit_def Let_def)

lemma isdigit_not_isspace: "isdigit c \<Longrightarrow> \<not> isspace c"
  by (auto simp: isdigit_def isspace_def Let_def)

lemma isspace_space: "isspace CHR '' ''" by (simp add: isspace_def)

lemma strip_Nil: "strip [] = []"
  by (simp add: strip_def)

lemma strip_id:
  assumes "s \<noteq> []" "\<not> isspace (hd s)" "\<not> isspace (last s)"
  shows "strip s = s"
proof -
  have a: "dropWhile isspace s = s"
    using assms by (cases s) auto
  have "rev s \<noteq> []" "\<not> isspace (hd (rev s))"
    using assms by (simp_all add: hd_rev)
  then have "dropWhile isspace (rev s) = rev s"
    by (cases "rev s") auto
  with a show ?thesis by (simp add: strip_def)
qed

lemma strip_ends:
  assumes "strip s \<noteq> []"
  shows "\<not> isspace (hd (strip s))" "\<not> isspace (last (strip s))"
proof -
  define t where "t = dropWhile isspace s"
  define u where "u = dropWhile isspace (rev t)"
  have su: "strip s = rev u" by (simp add: strip_def t_def u_def)
  with assms have un: "u \<noteq> []" by simp
  then have hu: "\<not> isspace (hd u)" unfolding u_def by (rule hd_dropWhile)
  have "rev t = takeWhile isspace (rev t) @ u" by (simp add: u_def)
  then have "last (rev t) = last u" using un by (metis last_appendR)
  moreover have tn: "t \<noteq> []" using un by (auto simp: u_def)
  ultimately have "last u = hd t" by (simp add: last_rev)
  moreover have "\<not> isspace (hd t)" using tn unfolding t_def by (rule hd_dropWhile)
  ultimately show "\<not> isspace (hd (strip s))" using un by (simp add: su hd_rev)
  show "\<not> isspace (last (strip s))" using un hu by (simp add: su last_rev)
qed

lemma filter_keeps_ends:
  assumes "t \<noteq> []" "P (hd t)" "P (last t)"
  shows "filter P t \<noteq> []" "hd (filter P t) = hd t" "last (filter P t) = last t"
proof -
  show "filter P t \<noteq> []" "hd (filter P t) = hd t" using assms by (cases t; simp)+
  have "t = butlast t @ [last t]" using assms by simp
  then have "filter P t = filter P (butlast t) @ [last t]"
    using assms by (metis filter.simps(1,2) filter_append)
  then show "last (filter P t) = last t" by simp
qed

lemma tidy_filter_strip: "tidy (filter (\<lambda>c. c \<noteq> CHR '' '') (strip raw))"
proof (cases "strip raw = []")
  case True
  then show ?thesis by (simp add: tidy_def)
next
  case False
  have sp: "isspace CHR '' ''" by (simp add: isspace_def)
  from strip_ends[OF False] have "hd (strip raw) \<noteq> CHR '' ''" "last (strip raw) \<noteq> CHR '' ''"
    using sp by auto
  from filter_keeps_ends[of "strip raw" "\<lambda>c. c \<noteq> CHR '' ''", OF False this]
  show ?thesis using strip_ends[OF False] by (simp add: tidy_def)
qed

lemma tidy_fixed:
  assumes "tidy s"
  shows "filter (\<lambda>c. c \<noteq> CHR '' '') (strip s) = s"
proof (cases "s = []")
  case True
  then show ?thesis by (simp add: strip_Nil)
next
  case False
  with assms have "strip s = s" by (auto simp: tidy_def intro: strip_id)
  moreover have "filter (\<lambda>c. c \<noteq> CHR '' '') s = s"
    using assms by (auto simp: tidy_def filter_id_conv)
  ultimately show ?thesis by simp
qed

lemma norm_klasse_core: "norm_klasse raw = norm_core (filter (\<lambda>c. c \<noteq> CHR '' '') (strip raw))"
  by (cases "raw = []") (simp_all add: norm_klasse_def norm_core_def Let_def strip_Nil)

lemma norm_core_plain:
  assumes "\<not> (length s = 2 \<and> s ! 0 = CHR ''0'' \<and> isdigit (s ! 1))"
  shows "norm_core s = (if length s \<ge> 2 \<and> isalpha (last s) then butlast s @ [lower_char (last s)] else s)"
  using assms unfolding norm_core_def Let_def by (simp only: if_False)

lemma norm_core_cases:
  obtains (zero_digit) d where "s = [CHR ''0'', d]" "isdigit d" "norm_core s = [d]"
  | (alpha_tail) "length s \<ge> 2" "isalpha (last s)" "norm_core s = butlast s @ [lower_char (last s)]"
  | (unchanged) "\<not> (length s \<ge> 2 \<and> isalpha (last s))" "\<not> (length s = 2 \<and> s ! 0 = CHR ''0'' \<and> isdigit (s ! 1))" "norm_core s = s"
proof (cases "length s = 2 \<and> s ! 0 = CHR ''0'' \<and> isdigit (s ! 1)")
  case True
  then have "length s = Suc (Suc 0)" by simp
  then obtain a d where s: "s = [a, d]"
    by (auto simp: length_Suc_conv)
  from True have "[a, d] ! 0 = CHR ''0''" "isdigit ([a, d] ! 1)" unfolding s by simp_all
  then have ad: "a = CHR ''0''" "isdigit d" by simp_all
  have "norm_core [CHR ''0'', d] = [d]" using ad by (simp add: norm_core_def)
  then show ?thesis using zero_digit[of d] ad s by simp
next
  case False
  then have nc: "norm_core s = (if length s \<ge> 2 \<and> isalpha (last s) then butlast s @ [lower_char (last s)] else s)"
    by (rule norm_core_plain)
  show ?thesis
  proof (cases "length s \<ge> 2 \<and> isalpha (last s)")
    case True
    with nc have "norm_core s = butlast s @ [lower_char (last s)]" by simp
    with True show ?thesis by (intro alpha_tail) simp_all
  next
    case F2: False
    with nc have "norm_core s = s" by simp
    with F2 False show ?thesis by (intro unchanged)
  qed
qed

lemma norm_core_idem: "norm_core (norm_core s) = norm_core s"
proof (cases s rule: norm_core_cases)
  case (zero_digit d)
  have "norm_core [d] = [d]" by (simp add: norm_core_def)
  with zero_digit(3) show ?thesis by simp
next
  case alpha_tail
  define r where "r = butlast s @ [lower_char (last s)]"
  have al: "isalpha (lower_char (last s))" using alpha_tail(2) by (simp add: isalpha_lower_char)
  then have nd: "\<not> isdigit (lower_char (last s))" by (rule isalpha_not_isdigit)
  have len: "length r = length s" using alpha_tail(1) by (simp add: r_def)
  have lr: "last r = lower_char (last s)" "butlast r = butlast s" by (simp_all add: r_def)
  have "r ! 1 = lower_char (last s)" if "length r = 2"
  proof -
    from that len have "length (butlast s) = 1" by simp
    then show ?thesis by (simp add: r_def nth_append)
  qed
  with nd have "\<not> (length r = 2 \<and> r ! 0 = CHR ''0'' \<and> isdigit (r ! 1))" by auto
  then have "norm_core r = (if length r \<ge> 2 \<and> isalpha (last r) then butlast r @ [lower_char (last r)] else r)"
    by (rule norm_core_plain)
  also have "\<dots> = butlast s @ [lower_char (lower_char (last s))]"
    using al alpha_tail(1) len lr by simp
  also have "\<dots> = r" by (simp add: r_def lower_char_idem)
  finally show ?thesis using alpha_tail(3) by (simp add: r_def)
next
  case unchanged
  have "norm_core s = s" by (rule unchanged(3))
  then show ?thesis by simp
qed

lemma tidy_norm_core:
  assumes "tidy s"
  shows "tidy (norm_core s)"
proof (cases s rule: norm_core_cases)
  case (zero_digit d)
  then have "d \<noteq> CHR '' ''" "\<not> isspace d"
    using assms isdigit_not_isspace[of d] by (auto simp: tidy_def)
  with zero_digit show ?thesis by (simp add: tidy_def)
next
  case alpha_tail
  then have sn: "s \<noteq> []" and bn: "butlast s \<noteq> []" by (auto simp: butlast_conv_take)
  have al: "isalpha (lower_char (last s))" using alpha_tail(2) by (simp add: isalpha_lower_char)
  then have ns: "\<not> isspace (lower_char (last s))" by (rule isalpha_not_isspace)
  then have "lower_char (last s) \<noteq> CHR '' ''" using isspace_space by auto
  moreover have "CHR '' '' \<notin> set (butlast s)"
    using assms by (auto simp: tidy_def dest: in_set_butlastD)
  moreover have "hd (butlast s @ [lower_char (last s)]) = hd s"
    using bn sn by (cases s) auto
  ultimately show ?thesis using assms sn ns alpha_tail(3) by (simp add: tidy_def)
next
  case unchanged
  with assms show ?thesis by simp
qed

subsection \<open>Class-code normalization\<close>

text \<open>
  C10. Class-code normalization is idempotent: normalizing an already normalized class code
  changes nothing, for every input string.
\<close>

theorem norm_klasse_idempotent: "norm_klasse (norm_klasse s) = norm_klasse s"
proof -
  let ?t = "filter (\<lambda>c. c \<noteq> CHR '' '') (strip s)"
  have "tidy (norm_core ?t)" by (rule tidy_norm_core[OF tidy_filter_strip])
  then have "filter (\<lambda>c. c \<noteq> CHR '' '') (strip (norm_core ?t)) = norm_core ?t"
    by (rule tidy_fixed)
  then show ?thesis by (simp add: norm_klasse_core norm_core_idem)
qed

lemma norm_klasse_via: "norm_klasse raw = norm_core (despace raw)"
  by (simp add: norm_klasse_core despace_def)

lemma norm_core_zero_digit:
  "length s = 2 \<Longrightarrow> s ! 0 = CHR ''0'' \<Longrightarrow> isdigit (s ! 1) \<Longrightarrow> norm_core s = [s ! 1]"
  by (simp add: norm_core_def)

text \<open>
  C7 (as amended). Class-code normalization maps the empty string to the empty string; its
  result contains no space character and neither starts nor ends with whitespace (only the
  space character is removed inside the code, other whitespace such as a tab stays); a
  leading zero followed by one digit becomes the bare digit; when the code, after the removal
  of spaces, has at least two characters and ends in a letter, only that last letter is
  lower-cased; a code of fewer than two characters, or one that does not end in a letter and
  is not zero-plus-digit, is returned as it is after the removal of spaces.
\<close>

theorem norm_klasse_amended:
  "norm_klasse [] = []
   \<and> CHR '' '' \<notin> set (norm_klasse raw)
   \<and> (norm_klasse raw \<noteq> [] \<longrightarrow> \<not> isspace (hd (norm_klasse raw)) \<and> \<not> isspace (last (norm_klasse raw)))
   \<and> (isdigit d \<longrightarrow> norm_klasse [CHR ''0'', d] = [d])
   \<and> (length (despace raw) = 2 \<and> despace raw ! 0 = CHR ''0'' \<and> isdigit (despace raw ! 1)
        \<longrightarrow> norm_klasse raw = [despace raw ! 1])
   \<and> (length (despace raw) \<ge> 2 \<and> isalpha (last (despace raw))
        \<longrightarrow> norm_klasse raw = butlast (despace raw) @ [lower_char (last (despace raw))])
   \<and> (length (despace raw) < 2 \<longrightarrow> norm_klasse raw = despace raw)
   \<and> (\<not> isalpha (last (despace raw))
          \<and> \<not> (length (despace raw) = 2 \<and> despace raw ! 0 = CHR ''0'' \<and> isdigit (despace raw ! 1))
        \<longrightarrow> norm_klasse raw = despace raw)"
proof -
  have t: "tidy (norm_klasse raw)"
    unfolding norm_klasse_core by (rule tidy_norm_core[OF tidy_filter_strip])
  have p1: "norm_klasse [] = []" by (simp add: norm_klasse_def)
  have p2: "CHR '' '' \<notin> set (norm_klasse raw)" using t by (simp add: tidy_def)
  have p3: "norm_klasse raw \<noteq> [] \<longrightarrow> \<not> isspace (hd (norm_klasse raw)) \<and> \<not> isspace (last (norm_klasse raw))"
    using t by (auto simp: tidy_def)
  have p4: "isdigit d \<longrightarrow> norm_klasse [CHR ''0'', d] = [d]"
  proof
    assume d: "isdigit d"
    then have "\<not> isspace d" by (rule isdigit_not_isspace)
    then have "d \<noteq> CHR '' ''" using isspace_space by auto
    moreover have "\<not> isspace CHR ''0''" by (simp add: isspace_def)
    ultimately have "despace [CHR ''0'', d] = [CHR ''0'', d]"
      using \<open>\<not> isspace d\<close> by (simp add: despace_def strip_def)
    then show "norm_klasse [CHR ''0'', d] = [d]"
      using d by (simp add: norm_klasse_via norm_core_def)
  qed
  have p5: "length (despace raw) = 2 \<and> despace raw ! 0 = CHR ''0'' \<and> isdigit (despace raw ! 1)
        \<longrightarrow> norm_klasse raw = [despace raw ! 1]"
    by (auto simp: norm_klasse_via norm_core_zero_digit)
  have p6: "length (despace raw) \<ge> 2 \<and> isalpha (last (despace raw))
        \<longrightarrow> norm_klasse raw = butlast (despace raw) @ [lower_char (last (despace raw))]"
    by (cases "despace raw" rule: norm_core_cases)
      (auto simp: norm_klasse_via dest: isalpha_not_isdigit)
  have p7: "length (despace raw) < 2 \<longrightarrow> norm_klasse raw = despace raw"
    by (cases "despace raw" rule: norm_core_cases) (auto simp: norm_klasse_via)
  have p8: "\<not> isalpha (last (despace raw))
          \<and> \<not> (length (despace raw) = 2 \<and> despace raw ! 0 = CHR ''0'' \<and> isdigit (despace raw ! 1))
        \<longrightarrow> norm_klasse raw = despace raw"
    by (cases "despace raw" rule: norm_core_cases) (auto simp: norm_klasse_via)
  from p1 p2 p3 p4 p5 p6 p7 p8 show ?thesis by (intro conjI)
qed

text \<open>Evaluation rules for the character classes on concrete characters.\<close>

lemmas py_char_eval = isspace_def isdigit_def isalpha_def lower_char_def char_of_def bit_iff_odd

theorem norm_klasse_amended_witness:
  "norm_klasse ''07'' = ''7'' \<and> norm_klasse ''10B'' = ''10b'' \<and> norm_klasse ''7'' = ''7''
   \<and> norm_klasse '' 7 a '' = ''7a'' \<and> norm_klasse ''A'' = ''A''"
proof -
  have d: "despace ''10B'' = ''10B''" "despace ''7'' = ''7''" "despace '' 7 a '' = ''7a''" "despace ''A'' = ''A''"
    by (simp_all add: despace_def strip_def isspace_def)
  have "isdigit CHR ''7''" by (simp add: isdigit_def)
  with norm_klasse_amended[of "''10B''" "CHR ''7''"] have a: "norm_klasse ''07'' = ''7''" by blast
  have "isalpha CHR ''B''" "isalpha CHR ''a''" by (simp_all add: isalpha_def)
  with norm_klasse_amended[of "''10B''" "CHR ''7''"] norm_klasse_amended[of "'' 7 a ''" "CHR ''7''"]
  have b: "norm_klasse ''10B'' = ''10b''" "norm_klasse '' 7 a '' = ''7a''"
    by (simp_all add: d py_char_eval)
  from norm_klasse_amended[of "''7''" "CHR ''7''"] norm_klasse_amended[of "''A''" "CHR ''7''"]
  have c: "norm_klasse ''7'' = ''7''" "norm_klasse ''A'' = ''A''"
    by (simp_all add: d)
  from a b c show ?thesis by simp
qed

text \<open>
  The claim as first stated fails: a single upper-case letter ends in an alphabetic character
  and is not lower-cased, and a tab inside the code is whitespace that is not removed.
\<close>

theorem norm_klasse_claim_counterexample:
  "isalpha CHR ''A'' \<and> norm_klasse ''A'' = ''A'' \<and> lower_char CHR ''A'' = CHR ''a''
   \<and> isspace (CHR 0x09) \<and> CHR 0x09 \<in> set (norm_klasse [CHR ''1'', CHR 0x09, CHR ''b''])"
  by (simp add: norm_klasse_def strip_def py_char_eval)

subsection \<open>Salutation from a reference\<close>

lemma split_on_nonempty: "split_on sep s \<noteq> []"
  by (induction s) (auto split: list.splits)

lemma split_on_no_sep: "sep \<notin> set s \<Longrightarrow> split_on sep s = [s]"
  by (induction s) auto

lemma split_on_first:
  "sep \<notin> set a \<Longrightarrow> split_on sep (a @ sep # b) = a # split_on sep b"
  by (induction a) (auto split: list.splits)

lemma split_on_second:
  assumes "sep \<notin> set a" "sep \<notin> set m" "rest = [] \<or> hd rest = sep"
  shows "length (split_on sep (a @ sep # m @ rest)) \<ge> 2 \<and> split_on sep (a @ sep # m @ rest) ! 1 = m"
proof (cases rest)
  case Nil
  then show ?thesis using assms by (simp add: split_on_first split_on_no_sep)
next
  case (Cons r rs)
  with assms have "rest = sep # rs" by simp
  then show ?thesis using assms by (simp add: split_on_first)
qed

lemma strip_strip: "strip (strip s) = strip s"
proof (cases "strip s = []")
  case True
  then show ?thesis by (simp add: strip_Nil)
next
  case False
  then show ?thesis using strip_ends[OF False] by (intro strip_id)
qed

lemma read_reference_trimmed: "strip (read_reference p) = read_reference p"
  by (cases "sourcedid p") (simp_all add: read_reference_def get_text_ns_def strip_Nil strip_strip)

text \<open>
  C9. The reference handed to the salutation derivation is the trimmed text of the person's
  identifier. For every reference without surrounding whitespace the salutation is "Herr"
  when the reference has a second dash-separated segment whose last character is '3', "Frau"
  when that last character is '4', and empty in every other case: another ending, an empty
  second segment, fewer than two segments, or the empty reference. The second segment of
  \<open>a-m\<close> or \<open>a-m-...\<close> is \<open>m\<close>; a reference without a dash has a single segment. On
  every string the function returns one of the three salutations, so it never raises.
\<close>

theorem anrede_from_reference_trimmed:
  "(strip ref = ref \<longrightarrow>
      anrede_from_reference ref =
        (if length (split_on CHR ''-'' ref) \<ge> 2 \<and> split_on CHR ''-'' ref ! 1 \<noteq> []
            \<and> last (split_on CHR ''-'' ref ! 1) = CHR ''3'' then ''Herr''
         else if length (split_on CHR ''-'' ref) \<ge> 2 \<and> split_on CHR ''-'' ref ! 1 \<noteq> []
            \<and> last (split_on CHR ''-'' ref ! 1) = CHR ''4'' then ''Frau''
         else []))
   \<and> (CHR ''-'' \<notin> set a \<and> CHR ''-'' \<notin> set m \<and> (rest = [] \<or> hd rest = CHR ''-'')
        \<longrightarrow> length (split_on CHR ''-'' (a @ CHR ''-'' # m @ rest)) \<ge> 2
            \<and> split_on CHR ''-'' (a @ CHR ''-'' # m @ rest) ! 1 = m)
   \<and> (CHR ''-'' \<notin> set ref \<longrightarrow> length (split_on CHR ''-'' ref) < 2)
   \<and> strip (read_reference p) = read_reference p
   \<and> anrede_from_reference [] = []
   \<and> anrede_from_reference ref \<in> {''Herr'', ''Frau'', []}"
proof -
  have p1: "anrede_from_reference ref =
        (if length (split_on CHR ''-'' ref) \<ge> 2 \<and> split_on CHR ''-'' ref ! 1 \<noteq> []
            \<and> last (split_on CHR ''-'' ref ! 1) = CHR ''3'' then ''Herr''
         else if length (split_on CHR ''-'' ref) \<ge> 2 \<and> split_on CHR ''-'' ref ! 1 \<noteq> []
            \<and> last (split_on CHR ''-'' ref ! 1) = CHR ''4'' then ''Frau''
         else [])"
    if t: "strip ref = ref"
  proof (cases "ref = []")
    case True
    then show ?thesis by (simp add: anrede_from_reference_def)
  next
    case False
    then show ?thesis
      unfolding anrede_from_reference_def t Let_def by (auto simp del: split_on.simps)
  qed
  have p2: "length (split_on CHR ''-'' (a @ CHR ''-'' # m @ rest)) \<ge> 2
            \<and> split_on CHR ''-'' (a @ CHR ''-'' # m @ rest) ! 1 = m"
    if "CHR ''-'' \<notin> set a \<and> CHR ''-'' \<notin> set m \<and> (rest = [] \<or> hd rest = CHR ''-'')"
    using that split_on_second[of "CHR ''-''" a m rest] by blast
  have p3: "length (split_on CHR ''-'' ref) < 2" if "CHR ''-'' \<notin> set ref"
    using that by (simp add: split_on_no_sep)
  have p4: "anrede_from_reference [] = []" by (simp add: anrede_from_reference_def)
  have p5: "anrede_from_reference ref \<in> {''Herr'', ''Frau'', []}"
    by (simp add: anrede_from_reference_def Let_def)
  from p1 p2 p3 p4 p5 read_reference_trimmed[of p] show ?thesis by blast
qed

theorem anrede_from_reference_trimmed_witness:
  "anrede_from_reference ''ID-2409843-0075X'' = ''Herr''
   \<and> anrede_from_reference ''ID-2409844-0075X'' = ''Frau''
   \<and> anrede_from_reference ''ID-2409845-0075X'' = []
   \<and> anrede_from_reference ''ID2409843'' = []
   \<and> split_on CHR ''-'' ''ID-2409843-0075X'' ! 1 = ''2409843''"
proof -
  let ?p = "\<lparr>given = None, family = None, fn = None, sourcedid = None,
             institutionroles = [], email = None\<rparr>"
  have s: "strip ''ID-2409843-0075X'' = ''ID-2409843-0075X''"
       "strip ''ID-2409844-0075X'' = ''ID-2409844-0075X''"
       "strip ''ID-2409845-0075X'' = ''ID-2409845-0075X''"
       "strip ''ID2409843'' = ''ID2409843''"
    by (simp_all add: strip_def isspace_def)
  from anrede_from_reference_trimmed[of "''ID-2409843-0075X''" "''ID''" "''2409843''" "''-0075X''" ?p] s(1)
  have a: "anrede_from_reference ''ID-2409843-0075X'' = ''Herr''"
    and e: "split_on CHR ''-'' ''ID-2409843-0075X'' ! 1 = ''2409843''" by simp_all
  from anrede_from_reference_trimmed[of "''ID-2409844-0075X''" "''ID''" "''2409844''" "''-0075X''" ?p] s(2)
  have b: "anrede_from_reference ''ID-2409844-0075X'' = ''Frau''" by simp
  from anrede_from_reference_trimmed[of "''ID-2409845-0075X''" "''ID''" "''2409845''" "''-0075X''" ?p] s(3)
  have c: "anrede_from_reference ''ID-2409845-0075X'' = []" by simp
  from anrede_from_reference_trimmed[of "''ID2409843''" "''ID''" "''2409845''" "''-0075X''" ?p] s(4)
  have d: "anrede_from_reference ''ID2409843'' = []" by simp
  from a b c d e show ?thesis by simp
qed

subsection \<open>Name splitting\<close>

lemma join_Cons_Cons: "join sep ((c # p) # ps) = c # join sep (p # ps)"
  by (cases ps) simp_all

lemma join_split_on: "join [sep] (split_on sep s) = s"
proof (induction s)
  case Nil
  then show ?case by simp
next
  case (Cons c cs)
  obtain p ps where sp: "split_on sep cs = p # ps"
    using split_on_nonempty[of sep cs] by (cases "split_on sep cs") auto
  show ?case
  proof (cases "c = sep")
    case True
    then show ?thesis using Cons sp by simp
  next
    case False
    then show ?thesis using Cons sp by (simp add: join_Cons_Cons)
  qed
qed

text \<open>
  C8 (as amended). For every entry whose structured given and family name are both absent
  or empty and whose combined full name is non-empty after trimming: when the full name
  contains a space, the text before the first space becomes the family name and the text
  after that first space becomes the given name; when it contains no space (a single
  token), the whole full name becomes the given name and the family name stays empty.
\<close>

theorem split_name_amended:
  "get_text_ns (given p) = [] \<and> get_text_ns (family p) = [] \<and> get_text_ns (fn p) \<noteq> []
   \<longrightarrow>
     (CHR '' '' \<notin> set a \<and> get_text_ns (fn p) = a @ CHR '' '' # b \<longrightarrow> split_name p = (b, a))
     \<and> (CHR '' '' \<notin> set (get_text_ns (fn p)) \<longrightarrow> split_name p = (get_text_ns (fn p), []))"
proof (intro impI conjI)
  assume h: "get_text_ns (given p) = [] \<and> get_text_ns (family p) = [] \<and> get_text_ns (fn p) \<noteq> []"
    and f: "CHR '' '' \<notin> set a \<and> get_text_ns (fn p) = a @ CHR '' '' # b"
  then have sp: "split_on CHR '' '' (get_text_ns (fn p)) = a # split_on CHR '' '' b"
    by (simp add: split_on_first)
  obtain q qs where q: "split_on CHR '' '' b = q # qs"
    using split_on_nonempty[of "CHR '' ''" b] by (cases "split_on CHR '' '' b") auto
  have "join '' '' (split_on CHR '' '' b) = b" by (rule join_split_on)
  then show "split_name p = (b, a)"
    using h sp q unfolding split_name_def Let_def by simp
next
  assume h: "get_text_ns (given p) = [] \<and> get_text_ns (family p) = [] \<and> get_text_ns (fn p) \<noteq> []"
    and f: "CHR '' '' \<notin> set (get_text_ns (fn p))"
  then have "split_on CHR '' '' (get_text_ns (fn p)) = [get_text_ns (fn p)]"
    by (simp add: split_on_no_sep)
  then show "split_name p = (get_text_ns (fn p), [])"
    using h unfolding split_name_def Let_def by simp
qed

theorem split_name_amended_witness:
  "split_name \<lparr>given = None, family = None, fn = Some ''Muster Anna Lena'', sourcedid = None,
       institutionroles = [], email = None\<rparr> = (''Anna Lena'', ''Muster'')
   \<and> split_name \<lparr>given = None, family = Some '' '', fn = Some ''Cher'', sourcedid = None,
       institutionroles = [], email = None\<rparr> = (''Cher'', [])"
proof -
  let ?p = "\<lparr>given = None, family = None, fn = Some ''Muster Anna Lena'', sourcedid = None,
       institutionroles = [], email = None\<rparr>"
  let ?q = "\<lparr>given = None, family = Some '' '', fn = Some ''Cher'', sourcedid = None,
       institutionroles = [], email = None\<rparr>"
  have "get_text_ns (fn ?p) = ''Muster'' @ CHR '' '' # ''Anna Lena''"
    by (simp add: get_text_ns_def strip_def isspace_def)
  with split_name_amended[of ?p "''Muster''" "''Anna Lena''"]
  have a: "split_name ?p = (''Anna Lena'', ''Muster'')"
    by (simp add: get_text_ns_def strip_def isspace_def)
  have "get_text_ns (fn ?q) = ''Cher''"
    by (simp add: get_text_ns_def strip_def isspace_def)
  with split_name_amended[of ?q "[]" "[]"]
  have b: "split_name ?q = (''Cher'', [])"
    by (simp add: get_text_ns_def strip_def isspace_def)
  from a b show ?thesis by simp
qed

text \<open>
  The claim as first stated fails for a single-token full name: the token becomes the given
  name, not the family name. It also fails for a full name whose tokens are separated by a
  tab: the split is at space characters only, so the name counts as a single token.
\<close>

theorem split_name_claim_counterexample:
  "split_name \<lparr>given = None, family = None, fn = Some ''Cher'', sourcedid = None,
       institutionroles = [], email = None\<rparr> = (''Cher'', [])
   \<and> split_name \<lparr>given = None, family = None, fn = Some [CHR ''A'', CHR 0x09, CHR ''B''],
       sourcedid = None, institutionroles = [], email = None\<rparr> = ([CHR ''A'', CHR 0x09, CHR ''B''], [])"
  by (simp add: split_name_def get_text_ns_def strip_def isspace_def)

subsection \<open>Relationship resolver\<close>

lemma add_members_eq:
  "add_members k mem r =
     (\<lambda>pid. if pid \<in> set (filter (\<lambda>i. i \<noteq> []) (map get_text_ns mem)) then Some k else r pid)"
proof (induction mem arbitrary: r)
  case Nil
  then show ?case by simp
next
  case (Cons x xs)
  show ?case by (rule ext) (auto simp: Cons.IH Let_def)
qed

lemma membership_loop_single:
  "membership_loop [m] r =
     (if membership_klasse m = [] then r
      else (\<lambda>pid. if pid \<in> set (member_ids m) then Some (membership_klasse m) else r pid))"
  unfolding membership_klasse_def member_ids_def by (simp add: Let_def add_members_eq)

lemma membership_loop_snoc:
  "membership_loop (ms @ [m]) r = membership_loop [m] (membership_loop ms r)"
  by (induction ms arbitrary: r) (simp_all add: Let_def)

lemma build_snoc:
  "build_membership_class_map (ms @ [m]) =
     (if membership_klasse m = [] then build_membership_class_map ms
      else (\<lambda>pid. if pid \<in> set (member_ids m) then Some (membership_klasse m)
                   else build_membership_class_map ms pid))"
  unfolding build_membership_class_map_def membership_loop_snoc membership_loop_single ..

lemma build_last:
  "build_membership_class_map ms pid =
     (case filter (\<lambda>m. membership_klasse m \<noteq> [] \<and> pid \<in> set (member_ids m)) ms of
        [] \<Rightarrow> None
      | hit # hits \<Rightarrow> Some (membership_klasse (last (hit # hits))))"
proof (induction ms rule: rev_induct)
  case Nil
  then show ?case by (simp add: build_membership_class_map_def)
next
  case (snoc m ms)
  show ?case
  proof (cases "membership_klasse m \<noteq> [] \<and> pid \<in> set (member_ids m)")
    case True
    let ?P = "\<lambda>m. membership_klasse m \<noteq> [] \<and> pid \<in> set (member_ids m)"
    have f: "filter ?P (ms @ [m]) = filter ?P ms @ [m]" using True by simp
    obtain hit hits where hh: "filter ?P ms @ [m] = hit # hits"
      by (cases "filter ?P ms") auto
    then have "last (hit # hits) = m" by (metis last_snoc)
    then show ?thesis using True by (simp only: build_snoc f hh list.case if_True if_False)
  next
    case False
    then show ?thesis using snoc by (auto simp: build_snoc)
  qed
qed

text \<open>
  C4. The resolver starts from the empty lookup. A membership record whose derived class code
  is empty leaves the lookup as it was (its members get no mapping from it); any other record
  maps each of its member identifiers to its class code, replacing whatever an earlier record
  had stored for that identifier. So the class code of an identifier is that of the last
  record, among those with a non-empty class code, that lists it, and there is none when no
  such record exists. The lookup is computed from the membership records alone: replacing
  the person records of the tree by any others does not change it.
\<close>

theorem build_membership_class_map_last_write_wins:
  "build_membership_class_map [] = Map.empty
   \<and> build_membership_class_map (ms @ [m]) =
       (if membership_klasse m = [] then build_membership_class_map ms
        else (\<lambda>pid. if pid \<in> set (member_ids m) then Some (membership_klasse m)
                     else build_membership_class_map ms pid))
   \<and> build_membership_class_map ms pid =
       (case filter (\<lambda>m. membership_klasse m \<noteq> [] \<and> pid \<in> set (member_ids m)) ms of
          [] \<Rightarrow> None
        | hit # hits \<Rightarrow> Some (membership_klasse (last (hit # hits))))
   \<and> build_membership_class_map (memberships (tree\<lparr>persons := ps\<rparr>))
       = build_membership_class_map (memberships tree)"
proof -
  have "build_membership_class_map [] = Map.empty"
    by (simp add: build_membership_class_map_def)
  moreover note build_snoc[of ms m] build_last[of ms pid]
  moreover have "build_membership_class_map (memberships (tree\<lparr>persons := ps\<rparr>))
       = build_membership_class_map (memberships tree)" by simp
  ultimately show ?thesis by (intro conjI)
qed

text \<open>An example with a skipped record, a member without identifier and an overwritten entry.\<close>

lemma build_membership_class_map_example: "build_membership_class_map
     [\<lparr>group_id = Some ''klasse-7A'', members = [Some ''R1'', None, Some ''R2'']\<rparr>,
      \<lparr>group_id = Some ''AG-Schach'', members = [Some ''R1'', Some ''R3'']\<rparr>,
      \<lparr>group_id = Some ''Klasse-08'', members = [Some ''R2'']\<rparr>] ''R2'' = Some ''8''"
  by code_simp

subsection \<open>Roster extraction\<close>

lemma convert_loop_students_named:
  "\<forall>r \<in> set (fst acc). s_Vorname r \<noteq> [] \<or> s_Nachname r \<noteq> [] \<Longrightarrow>
   \<forall>r \<in> set (fst (convert_loop lk ps acc)). s_Vorname r \<noteq> [] \<or> s_Nachname r \<noteq> []"
proof (induction lk ps acc rule: convert_loop.induct)
  case (1 lk ss ls)
  then show ?case by simp
next
  case (2 lk p rest ss ls)
  show ?case
  proof (cases "is_student p")
    case True
    obtain v n where vn: "split_name p = (v, n)" by (cases "split_name p")
    show ?thesis
    proof (cases "v \<noteq> [] \<or> n \<noteq> []")
      case named: True
      have "\<forall>r\<in>set (fst (convert_loop lk rest
              (ss @ [\<lparr>s_Vorname = v, s_Nachname = n,
                       s_Klasse = (case lk (read_reference p) of None \<Rightarrow> [] | Some k \<Rightarrow> k),
                       s_Referenz = read_reference p\<rparr>], ls))). s_Vorname r \<noteq> [] \<or> s_Nachname r \<noteq> []"
        using "2.IH"(1)[OF True vn[symmetric] refl refl _ named] "2.prems" named by auto
      then show ?thesis using True vn named by (simp add: Let_def)
    next
      case False
      have "\<forall>r\<in>set (fst (convert_loop lk rest (ss, ls))). s_Vorname r \<noteq> [] \<or> s_Nachname r \<noteq> []"
        using "2.IH"(2)[OF True vn[symmetric] refl refl _ False] "2.prems" by auto
      then show ?thesis using True vn False by (simp add: Let_def)
    qed
  next
    case False
    then show ?thesis using 2 by (auto simp: Let_def split: prod.splits)
  qed
qed

text \<open>
  C3. An entry contributing neither a given nor a family name should appear in neither output
  sequence. The student branch checks this, the teacher branch does not: the same nameless
  entry is dropped when its role is student and kept, with both names empty, when its role is
  a teacher role.
\<close>

theorem convert_keeps_nameless_teacher:
  "convert \<lparr>persons = [\<lparr>given = None, family = None, fn = None, sourcedid = Some ''ID-1234563-0001'',
                 institutionroles = [Some ''Student''], email = None\<rparr>], memberships = []\<rparr>
     = ([], [])
   \<and> convert \<lparr>persons = [\<lparr>given = None, family = None, fn = None, sourcedid = Some ''ID-1234563-0001'',
                 institutionroles = [Some ''Faculty''], email = None\<rparr>], memberships = []\<rparr>
     = ([], [\<lparr>l_Anrede = ''Herr'', l_Vorname = [], l_Nachname = [], l_Referenz = ''ID-1234563-0001''\<rparr>])"
  by code_simp

subsection \<open>Tabular record loader\<close>

lemma index_of_ge: "index_of x ys \<ge> - 1"
  by (induction ys) (auto simp: Let_def)

lemma index_of_absent: "(index_of x ys = - 1) = (x \<notin> set ys)"
proof (induction ys)
  case Nil
  then show ?case by simp
next
  case (Cons y ys)
  have "index_of x ys \<ge> - 1" by (rule index_of_ge)
  then show ?case using Cons by (auto simp: Let_def)
qed

lemma min_list_mem: "xs \<noteq> [] \<Longrightarrow> min_list xs \<in> set (xs :: int list)"
  by (simp add: min_list_Min)

lemma assume_positional_iff:
  "assume_positional (bind_header header) =
     (let hdr_norm = map (\<lambda>h. lower (strip h)) header
      in ''vorname'' \<notin> set hdr_norm \<and> ''nachname'' \<notin> set hdr_norm
         \<and> ''klasse'' \<notin> set hdr_norm \<and> ''referenz'' \<notin> set hdr_norm)"
proof -
  define hn where "hn = map (\<lambda>h. lower (strip h)) header"
  define found where "found = filter (\<lambda>x. x \<noteq> - 1)
      [idx hn ''vorname'', idx hn ''nachname'', idx hn ''klasse'', idx hn ''referenz'']"
  have a: "assume_positional (bind_header header)
      = (min_list (case found of [] \<Rightarrow> [- 1] | x # xs \<Rightarrow> x # xs) = - 1)"
    by (simp add: bind_header_def Let_def hn_def found_def)
  have low: "lower ''vorname'' = ''vorname''" "lower ''nachname'' = ''nachname''"
      "lower ''klasse'' = ''klasse''" "lower ''referenz'' = ''referenz''"
    by (simp_all add: lower_def lower_char_def)
  have none: "(found = []) = (''vorname'' \<notin> set hn \<and> ''nachname'' \<notin> set hn
         \<and> ''klasse'' \<notin> set hn \<and> ''referenz'' \<notin> set hn)"
    unfolding found_def idx_def low by (simp add: index_of_absent del: index_of.simps)
  show ?thesis
  proof (cases found)
    case Nil
    then show ?thesis using a none by (simp add: Let_def hn_def)
  next
    case (Cons x xs)
    then have "min_list found \<in> set found" by (intro min_list_mem) simp
    then have "min_list found \<noteq> - 1" by (auto simp: found_def)
    then show ?thesis using a none Cons by (simp add: Let_def hn_def)
  qed
qed

text \<open>
  C2 (as amended). Positional mode is active exactly when none of the four header names
  vorname, nachname, klasse, referenz occurs in the normalized header. In positional mode the
  six values are the trimmed columns 0..4 and an empty salutation, with no further
  substitution. In name-bound mode the given name is the trimmed cell bound by name unless
  that is empty, in which case the trimmed column 0 of the (non-empty) row is substituted;
  the family name likewise falls back to the trimmed column 1 when the row has one.
\<close>

theorem bind_row_amended:
  "assume_positional (bind_header header) =
     (let hdr_norm = map (\<lambda>h. lower (strip h)) header
      in ''vorname'' \<notin> set hdr_norm \<and> ''nachname'' \<notin> set hdr_norm
         \<and> ''klasse'' \<notin> set hdr_norm \<and> ''referenz'' \<notin> set hdr_norm)
   \<and> (assume_positional b \<longrightarrow>
        bind_row b row = \<lparr>Anrede = [], Vorname = pos_cell row 0, Nachname = pos_cell row 1,
           Klasse = pos_cell row 2, Referenz = pos_cell row 3, Code = pos_cell row 4\<rparr>)
   \<and> (\<not> assume_positional b \<and> row \<noteq> [] \<longrightarrow>
        Vorname (bind_row b row) =
          (if cell row (i_v b) \<noteq> [] then cell row (i_v b) else pos_cell row 0)
        \<and> Nachname (bind_row b row) =
          (if cell row (i_n b) \<noteq> [] then cell row (i_n b) else pos_cell row 1)
        \<and> Anrede (bind_row b row) = cell row (i_anrede b)
        \<and> Klasse (bind_row b row) = cell row (i_k b)
        \<and> Referenz (bind_row b row) = cell row (i_r b)
        \<and> Code (bind_row b row) = cell row (i_c b))"
proof (intro conjI impI)
  show "assume_positional (bind_header header) =
     (let hdr_norm = map (\<lambda>h. lower (strip h)) header
      in ''vorname'' \<notin> set hdr_norm \<and> ''nachname'' \<notin> set hdr_norm
         \<and> ''klasse'' \<notin> set hdr_norm \<and> ''referenz'' \<notin> set hdr_norm)"
    by (rule assume_positional_iff)
next
  assume "assume_positional b"
  then show "bind_row b row = \<lparr>Anrede = [], Vorname = pos_cell row 0, Nachname = pos_cell row 1,
           Klasse = pos_cell row 2, Referenz = pos_cell row 3, Code = pos_cell row 4\<rparr>"
    by (simp add: bind_row_def)
next
  assume h: "\<not> assume_positional b \<and> row \<noteq> []"
  then show "Vorname (bind_row b row) =
          (if cell row (i_v b) \<noteq> [] then cell row (i_v b) else pos_cell row 0)"
    by (simp add: bind_row_def Let_def pos_cell_def)
  from h show "Nachname (bind_row b row) =
          (if cell row (i_n b) \<noteq> [] then cell row (i_n b) else pos_cell row 1)"
    by (simp add: bind_row_def Let_def pos_cell_def strip_Nil)
  from h show "Anrede (bind_row b row) = cell row (i_anrede b)"
    "Klasse (bind_row b row) = cell row (i_k b)"
    "Referenz (bind_row b row) = cell row (i_r b)"
    "Code (bind_row b row) = cell row (i_c b)"
    by (simp_all add: bind_row_def Let_def)
qed

theorem bind_row_amended_witness:
  "\<not> assume_positional (bind_header [''Klasse'', ''Vorname'', ''Nachname''])
   \<and> Vorname (bind_row (bind_header [''Klasse'', ''Vorname'', ''Nachname'']) [''7a'', ''Anna'', ''Muster'']) = ''Anna''
   \<and> Vorname (bind_row (bind_header [''Klasse'', ''Vorname'', ''Nachname'']) [''7a'', [], ''Muster'']) = ''7a''
   \<and> assume_positional (bind_header [''A'', ''B''])
   \<and> bind_row (bind_header [''A'', ''B'']) [[], ''Muster'', ''7a'']
       = \<lparr>Anrede = [], Vorname = [], Nachname = ''Muster'', Klasse = ''7a'', Referenz = [], Code = []\<rparr>"
proof -
  let ?h = "[''Klasse'', ''Vorname'', ''Nachname'']"
  have nb: "\<not> assume_positional (bind_header ?h)" by code_simp
  have iv: "i_v (bind_header ?h) = 1" by code_simp
  have c1: "cell [''7a'', ''Anna'', ''Muster''] 1 = ''Anna''" "cell [''7a'', [], ''Muster''] 1 = []"
    "pos_cell [''7a'', [], ''Muster''] 0 = ''7a''"
    by (simp_all add: cell_def pos_cell_def strip_def isspace_def)
  from bind_row_amended[of ?h "bind_header ?h" "[''7a'', ''Anna'', ''Muster'']"] nb
  have a: "Vorname (bind_row (bind_header ?h) [''7a'', ''Anna'', ''Muster'']) = ''Anna''"
    by (simp add: iv c1)
  from bind_row_amended[of ?h "bind_header ?h" "[''7a'', [], ''Muster'']"] nb
  have b: "Vorname (bind_row (bind_header ?h) [''7a'', [], ''Muster'']) = ''7a''"
    by (simp add: iv c1)
  have ps: "assume_positional (bind_header [''A'', ''B''])" by code_simp
  have c2: "pos_cell [[], ''Muster'', ''7a''] 0 = []" "pos_cell [[], ''Muster'', ''7a''] 1 = ''Muster''"
    "pos_cell [[], ''Muster'', ''7a''] 2 = ''7a''" "pos_cell [[], ''Muster'', ''7a''] 3 = []"
    "pos_cell [[], ''Muster'', ''7a''] 4 = []" "pos_cell [[], ''Muster'', ''7a''] (Suc 0) = ''Muster''"
    by (simp_all add: pos_cell_def strip_def isspace_def)
  from bind_row_amended[of "[''A'', ''B'']" "bind_header [''A'', ''B'']" "[[], ''Muster'', ''7a'']"] ps
  have c: "bind_row (bind_header [''A'', ''B'']) [[], ''Muster'', ''7a'']
       = \<lparr>Anrede = [], Vorname = [], Nachname = ''Muster'', Klasse = ''7a'', Referenz = [], Code = []\<rparr>"
    by (simp add: c2)
  from nb a b ps c show ?thesis by simp
qed

text \<open>
  The claim as first stated fails: with the header Klasse, Vorname, Nachname the loader is in
  name-bound mode, and for a row whose Vorname cell is empty the given name is taken from
  positional column 0 (the class code), so a positional substitution does occur in
  name-bound mode.
\<close>

theorem bind_row_claim_counterexample:
  "\<not> assume_positional (bind_header [''Klasse'', ''Vorname'', ''Nachname''])
   \<and> cell [''7a'', [], ''Muster''] (i_v (bind_header [''Klasse'', ''Vorname'', ''Nachname''])) = []
   \<and> read_anton_csv [[''Klasse'', ''Vorname'', ''Nachname''], [''7a'', [], ''Muster'']]
       = [\<lparr>Anrede = [], Vorname = ''7a'', Nachname = ''Muster'', Klasse = ''7a'', Referenz = [], Code = []\<rparr>]"
  by code_simp

subsection \<open>Per-person content builder\<close>

lemma split_ws_stripped:
  assumes "s \<noteq> []" "\<not> isspace (hd s)"
  shows "split_ws s \<noteq> []"
proof -
  have "dropWhile isspace s = s" using assms by (cases s) auto
  then show ?thesis using assms(1) by (subst split_ws.simps) (simp add: Let_def)
qed

lemma first_given_strip: "\<exists>fg. first_given (strip s) = Inr fg"
proof (cases "strip s = []")
  case True
  then show ?thesis by (simp add: first_given_def)
next
  case False
  then have "split_ws (strip s) \<noteq> []"
    using strip_ends(1)[OF False] by (intro split_ws_stripped)
  then show ?thesis using False by (auto simp: first_given_def split: list.splits)
qed

lemma greet_always_hallo:
  "first_given (strip (Vorname r)) = Inr fg \<Longrightarrow>
   greet e r = Inr (''Hallo '' @ strip (strip (fg @ '' '' @ strip (Nachname r))) @ '','')"
  by (simp add: greet_def Let_def is_teacher_def)

text \<open>
  C1. When the salutation of a record is non-empty the greeting should be the salutation
  followed by the name. The content builder never produces that greeting: a non-empty
  salutation makes the record a teacher record, whose greeting is "Hallo" and the name, and
  the branch that would put the salutation in front is reached only when the salutation is
  empty. For the record with salutation "Frau", given name "Eva Maria" and family name
  "Muster" the greeting is "Hallo Eva Muster," under every configuration.
\<close>

theorem greet_ignores_salutation:
  "greet e \<lparr>Anrede = ''Frau'', Vorname = ''Eva Maria'', Nachname = ''Muster'', Klasse = [],
            Referenz = [], Code = ''abcd''\<rparr> = Inr ''Hallo Eva Muster,''"
  by (simp add: greet_def is_teacher_def first_given_def split_ws.simps strip_def isspace_def)

subsection \<open>Compact-summary layout fitter\<close>

lemma code_font_loop_fits:
  "code_font_loop sw code l0 l1 avail cs =
     (case filter (fits sw code l0 l1 avail) cs of [] \<Rightarrow> 8 | fs # _ \<Rightarrow> fs)"
  by (induction cs) (auto simp: Let_def fits_def)

lemma sorted_desc_candidates: "sorted_wrt (\<lambda>a b. a > b) candidates"
  by (simp add: candidates_def)

lemma hd_filter_largest:
  assumes "sorted_wrt (\<lambda>a b. a > b) cs" "filter P cs = x # xs" "y \<in> set cs" "P y"
  shows "y \<le> (x :: nat)"
  using assms
proof (induction cs)
  case Nil
  then show ?case by simp
next
  case (Cons c cs)
  then show ?case by (auto split: if_splits intro: less_imp_le)
qed

lemma code_font_result:
  "code_font_that_fits sw code l0 l1 avail =
     (case filter (fits sw code l0 l1 avail) candidates of [] \<Rightarrow> 8 | fs # _ \<Rightarrow> fs)"
  by (simp add: code_font_that_fits_def code_font_loop_fits)

lemma sticker_empty:
  "sticker e [] [] [] =
     Inr (StickerTable (logo_size e \<noteq> None) '' '' '' ''
            (code_font_that_fits (stringWidth e) [] '' '' '' '' (available_name_col (logo_size e)))
            [] '' '' (logo_w (logo_size e)) (max 0 (available_name_col (logo_size e))))"
  by (simp add: sticker_def first_given_def name_line_def strip_def isspace_def Let_def)

text \<open>
  C6 (as amended). The fitter returns a size from the candidate list. When some candidate
  fits (the code at that size and each name line at the name size, plus padding, within the
  available column width) it returns the largest candidate that fits; when none fits it
  returns 8. For an empty code and empty names the name lines are a single blank each, and the
  result is 28 exactly when the empty code at size 28 and the blank name lines at the name
  size, each with the padding, fit the available width.
\<close>

theorem code_font_that_fits_amended:
  "code_font_that_fits sw code l0 l1 avail \<in> set candidates
   \<and> ((\<exists>fs \<in> set candidates. fits sw code l0 l1 avail fs) \<longrightarrow>
        fits sw code l0 l1 avail (code_font_that_fits sw code l0 l1 avail)
        \<and> (\<forall>fs \<in> set candidates. fits sw code l0 l1 avail fs
              \<longrightarrow> fs \<le> code_font_that_fits sw code l0 l1 avail))
   \<and> ((\<forall>fs \<in> set candidates. \<not> fits sw code l0 l1 avail fs) \<longrightarrow>
        code_font_that_fits sw code l0 l1 avail = 8)
   \<and> sticker e [] [] [] =
        Inr (StickerTable (logo_size e \<noteq> None) '' '' '' ''
               (code_font_that_fits (stringWidth e) [] '' '' '' '' (available_name_col (logo_size e)))
               [] '' '' (logo_w (logo_size e)) (max 0 (available_name_col (logo_size e))))
   \<and> (code_font_that_fits sw [] '' '' '' '' avail = 28) = fits sw [] '' '' '' '' avail 28"
proof -
  let ?F = "fits sw code l0 l1 avail"
  let ?r = "code_font_that_fits sw code l0 l1 avail"
  have p1: "?r \<in> set candidates"
  proof (cases "filter ?F candidates")
    case Nil
    then show ?thesis by (simp add: code_font_result) (simp add: candidates_def)
  next
    case (Cons x xs)
    have "set (filter ?F candidates) \<subseteq> set candidates" by simp
    with Cons have "x \<in> set candidates" by auto
    then show ?thesis using Cons by (simp add: code_font_result)
  qed
  have p2: "?F ?r \<and> (\<forall>fs \<in> set candidates. ?F fs \<longrightarrow> fs \<le> ?r)"
    if "\<exists>fs \<in> set candidates. ?F fs"
  proof -
    from that have "filter ?F candidates \<noteq> []" by (auto simp: filter_empty_conv)
    then obtain x xs where c: "filter ?F candidates = x # xs"
      by (cases "filter ?F candidates") auto
    then have r: "?r = x" by (simp add: code_font_result)
    from c have "x \<in> set (filter ?F candidates)" by simp
    then have "?F x" by simp
    moreover have "fs \<le> x" if "fs \<in> set candidates" "?F fs" for fs
      using hd_filter_largest[OF sorted_desc_candidates c that] .
    ultimately show ?thesis using r by simp
  qed
  have p3: "?r = 8" if "\<forall>fs \<in> set candidates. \<not> ?F fs"
  proof -
    from that have "filter ?F candidates = []" by (auto simp: filter_empty_conv)
    then show ?thesis by (simp add: code_font_result)
  qed
  have p5: "(code_font_that_fits sw [] '' '' '' '' avail = 28) = fits sw [] '' '' '' '' avail 28"
  proof (cases "fits sw [] '' '' '' '' avail 28")
    case True
    then have "filter (fits sw [] '' '' '' '' avail) candidates
        = 28 # filter (fits sw [] '' '' '' '' avail) (tl candidates)"
      by (simp add: candidates_def)
    then show ?thesis using True by (simp add: code_font_result)
  next
    case False
    let ?G = "fits sw [] '' '' '' '' avail"
    have "code_font_that_fits sw [] '' '' '' '' avail \<noteq> 28"
    proof (cases "filter ?G candidates")
      case Nil
      then show ?thesis by (simp add: code_font_result)
    next
      case (Cons x xs)
      then have "x \<in> set (filter ?G candidates)" by simp
      then have "?G x" by simp
      with False have "x \<noteq> 28" by auto
      then show ?thesis using Cons by (simp add: code_font_result)
    qed
    with False show ?thesis by simp
  qed
  from p1 p2 p3 p5 sticker_empty[of e] show ?thesis by blast
qed

theorem code_font_that_fits_amended_witness:
  "code_font_that_fits fixed_pitch_width ''ABCDEFGH'' ''Eva'' ''Muster'' 127 = 22
   \<and> code_font_that_fits fixed_pitch_width ''ABCDEFGH'' ''Eva'' ''Muster'' 0 = 8
   \<and> code_font_that_fits fixed_pitch_width [] '' '' '' '' 127 = 28"
proof -
  let ?sw = fixed_pitch_width
  let ?e = "\<lparr>pdf_antonlink = [], pdf_schoolgroup = ''1'', pdf_onedoc = ''ja'', pdf_einzeln = ''nein'',
             logo_size = None, stringWidth = fixed_pitch_width\<rparr>"
  define r where "r = code_font_that_fits ?sw ''ABCDEFGH'' ''Eva'' ''Muster'' 127"
  have f22: "fits ?sw ''ABCDEFGH'' ''Eva'' ''Muster'' 127 22"
    by (simp add: fits_def fixed_pitch_width_def)
  have c22: "22 \<in> set candidates" by (simp add: candidates_def)
  note t = code_font_that_fits_amended[of ?sw "''ABCDEFGH''" "''Eva''" "''Muster''" 127 ?e]
  from t have rc: "r \<in> set candidates" by (simp add: r_def)
  from t f22 c22 have rf: "fits ?sw ''ABCDEFGH'' ''Eva'' ''Muster'' 127 r" and rl: "22 \<le> r"
    unfolding r_def by blast+
  from rc have "r \<in> {28, 26, 24, 22, 20, 18, 16, 14, 12, 10, 9, 8}" by (simp add: candidates_def)
  with rl have "r = 28 \<or> r = 26 \<or> r = 24 \<or> r = 22" by auto
  moreover have "\<not> fits ?sw ''ABCDEFGH'' ''Eva'' ''Muster'' 127 28"
      "\<not> fits ?sw ''ABCDEFGH'' ''Eva'' ''Muster'' 127 26"
      "\<not> fits ?sw ''ABCDEFGH'' ''Eva'' ''Muster'' 127 24"
    by (simp_all add: fits_def fixed_pitch_width_def)
  ultimately have a: "r = 22" using rf by auto
  have "\<forall>fs \<in> set candidates. \<not> fits ?sw ''ABCDEFGH'' ''Eva'' ''Muster'' 0 fs"
    by (simp add: fits_def fixed_pitch_width_def)
  with code_font_that_fits_amended[of ?sw "''ABCDEFGH''" "''Eva''" "''Muster''" 0 ?e]
  have b: "code_font_that_fits ?sw ''ABCDEFGH'' ''Eva'' ''Muster'' 0 = 8" by blast
  have "fits ?sw [] '' '' '' '' 127 28" by (simp add: fits_def fixed_pitch_width_def)
  with t have c: "code_font_that_fits ?sw [] '' '' '' '' 127 = 28" by blast
  from a b c show ?thesis by (simp add: r_def)
qed

text \<open>
  The claim as first stated fails for a wide logo: with a logo three times as wide as high the
  logo column takes 75 mm of the 100 mm, the name column is left with a negative width, and
  for an empty code and empty names the fitter returns 8, not 28.
\<close>

theorem code_font_that_fits_claim_counterexample:
  "available_name_col (Some (300, 100)) < 0
   \<and> sticker \<lparr>pdf_antonlink = [], pdf_schoolgroup = ''1'', pdf_onedoc = ''ja'', pdf_einzeln = ''nein'',
               logo_size = Some (300, 100), stringWidth = fixed_pitch_width\<rparr> [] [] []
       = Inr (StickerTable True '' '' '' '' 8 [] '' '' (logo_w (Some (300, 100))) 0)"
proof -
  have av: "available_name_col (Some (300, 100)) < 0"
    by (simp add: available_name_col_def logo_w_def mm_def)
  have "\<forall>fs \<in> set candidates. \<not> fits fixed_pitch_width [] '' '' '' '' (available_name_col (Some (300, 100))) fs"
    using av by (simp add: fits_def fixed_pitch_width_def candidates_def)
  then have "code_font_that_fits fixed_pitch_width [] '' '' '' '' (available_name_col (Some (300, 100))) = 8"
    by (simp add: code_font_result filter_False)
  then show ?thesis using av by (simp add: sticker_empty max_def)
qed

subsection \<open>Grouping and pagination\<close>

lemma sticker_strip_total:
  "\<exists>a l0 l1 f c q w nc. sticker e (strip v) n c0 = Inr (StickerTable a l0 l1 f c q w nc)"
proof -
  obtain fg where "first_given (strip v) = Inr fg" using first_given_strip by blast
  then show ?thesis by (simp add: sticker_def Let_def)
qed

lemma greet_total: "\<exists>g. greet e r = Inr g"
proof -
  obtain fg where "first_given (strip (Vorname r)) = Inr fg" using first_given_strip by blast
  then show ?thesis by (simp add: greet_always_hallo)
qed

lemma build_anton_story_total:
  "build_anton_story e r = Inr (person_blocks e r)
   \<and> PageBreak \<notin> set (person_blocks e r)
   \<and> person_blocks e r \<noteq> []
   \<and> last (person_blocks e r) \<noteq> PageBreak"
proof -
  obtain g where g: "greet e r = Inr g" using greet_total by blast
  obtain a l0 l1 f c q w nc where
    s: "sticker e (strip (Vorname r)) (strip (Nachname r)) (strip (Code r))
          = Inr (StickerTable a l0 l1 f c q w nc)"
    using sticker_strip_total by blast
  obtain blocks where b: "build_anton_story e r = Inr blocks"
    and p: "PageBreak \<notin> set blocks" "blocks \<noteq> []" "last blocks \<noteq> PageBreak"
    using g s by (simp add: build_anton_story_def Let_def split: option.splits)
  then show ?thesis by (simp add: person_blocks_def)
qed

lemma story_loop_join:
  "i + length people = Suc n \<Longrightarrow>
   story_loop e n i people story = Inr (story @ join [PageBreak] (map (person_blocks e) people))"
proof (induction people arbitrary: i story)
  case Nil
  then show ?case by simp
next
  case (Cons r rest)
  have b: "build_anton_story e r = Inr (person_blocks e r)"
    using build_anton_story_total by blast
  show ?case
  proof (cases rest)
    case Nil
    then have "\<not> i < n" using Cons.prems by simp
    then show ?thesis using Nil b by simp
  next
    case (Cons r' rest')
    then have lt: "i < n" using Cons.prems by simp
    have "Suc i + length rest = Suc n" using Cons.prems by simp
    from Cons.IH[OF this]
    have "story_loop e n (Suc i) rest (story @ person_blocks e r @ [PageBreak])
          = Inr ((story @ person_blocks e r @ [PageBreak]) @ join [PageBreak] (map (person_blocks e) rest))" .
    then show ?thesis using lt b Cons by simp
  qed
qed

lemma group_story_join:
  "group_story e people = Inr (join [PageBreak] (map (person_blocks e) people))"
  using story_loop_join[of 1 people "length people" e "[]"] by (simp add: group_story_def)

lemma count_join:
  "bs \<noteq> [] \<Longrightarrow> \<forall>b \<in> set bs. sep \<notin> set b \<Longrightarrow>
   count_list (join [sep] bs) sep = length bs - 1"
proof (induction "[sep]" bs rule: join.induct)
  case 1
  then show ?case by simp
next
  case (2 p)
  then show ?case by (simp add: count_list_0_iff)
next
  case (3 p q ps)
  then show ?case by (simp add: count_list_0_iff)
qed

lemma join_nonempty:
  "bs \<noteq> [] \<Longrightarrow> last bs \<noteq> [] \<Longrightarrow> join sep bs \<noteq> []"
  by (induction sep bs rule: join.induct) simp_all

lemma last_join:
  "bs \<noteq> [] \<Longrightarrow> last bs \<noteq> [] \<Longrightarrow> last (join sep bs) = last (last bs)"
proof (induction sep bs rule: join.induct)
  case (3 sep p q ps)
  then have "join sep (q # ps) \<noteq> []" by (intro join_nonempty) simp_all
  with 3 show ?case by simp
qed simp_all

lemma docs_loop_map:
  "docs_loop e ts classes docs =
     Inr (docs @ map (\<lambda>(cls, people). (output_filename cls ts,
                         join [PageBreak] (map (person_blocks e) people))) classes)"
  by (induction classes arbitrary: docs) (auto simp: group_story_join)

lemma classes_append_keys:
  "map fst (classes_append c r cl) =
     (if c \<in> fst ` set cl then map fst cl else map fst cl @ [c])"
  by (induction cl) (auto split: if_splits)

lemma classes_append_map_of:
  "map_of (classes_append c r cl) k =
     (if k = c then Some (case map_of cl c of None \<Rightarrow> [r] | Some ps \<Rightarrow> ps @ [r])
      else map_of cl k)"
  by (induction cl) auto

lemma classes_loop_distinct:
  "distinct (map fst cl) \<Longrightarrow> distinct (map fst (classes_loop e rows cl))"
proof (induction rows arbitrary: cl)
  case Nil
  then show ?case by simp
next
  case (Cons r rows)
  have "distinct (map fst (classes_append (cls_of e r) r cl))"
    using Cons.prems by (simp add: classes_append_keys)
  then show ?case using Cons.IH by simp
qed

lemma classes_loop_map_of:
  "map_of (classes_loop e rows cl) k =
     (case map_of cl k of
        None \<Rightarrow> (if filter (\<lambda>r. cls_of e r = k) rows = [] then None
                 else Some (filter (\<lambda>r. cls_of e r = k) rows))
      | Some ps \<Rightarrow> Some (ps @ filter (\<lambda>r. cls_of e r = k) rows))"
proof (induction rows arbitrary: cl)
  case Nil
  then show ?case by (simp split: option.splits)
next
  case (Cons r rows)
  show ?case
    by (simp add: Cons.IH classes_append_map_of split: option.splits)
qed

lemma classes_loop_groups:
  assumes "(cls, people) \<in> set (classes_loop e rows [])"
  shows "people = filter (\<lambda>r. cls_of e r = cls) rows" "people \<noteq> []"
proof -
  have "distinct (map fst (classes_loop e rows []))" by (rule classes_loop_distinct) simp
  with assms have "map_of (classes_loop e rows []) cls = Some people" by simp
  then have "people = filter (\<lambda>r. cls_of e r = cls) rows \<and> people \<noteq> []"
    by (auto simp: classes_loop_map_of split: if_splits)
  then show "people = filter (\<lambda>r. cls_of e r = cls) rows" "people \<noteq> []" by blast+
qed

lemma page_breaks_of_group:
  assumes "people \<noteq> []"
  shows "count_list (join [PageBreak] (map (person_blocks e) people)) PageBreak = length people - 1"
    and "last (join [PageBreak] (map (person_blocks e) people)) \<noteq> PageBreak"
proof -
  have "\<forall>b \<in> set (map (person_blocks e) people). PageBreak \<notin> set b"
    using build_anton_story_total by auto
  with assms show "count_list (join [PageBreak] (map (person_blocks e) people)) PageBreak = length people - 1"
    using count_join[of "map (person_blocks e) people" PageBreak] by simp
  have "last (map (person_blocks e) people) = person_blocks e (last people)"
    using assms by (simp add: last_map)
  then have "last (join [PageBreak] (map (person_blocks e) people)) = last (person_blocks e (last people))"
    using assms build_anton_story_total[of e "last people"]
      last_join[of "map (person_blocks e) people" "[PageBreak]"] by simp
  then show "last (join [PageBreak] (map (person_blocks e) people)) \<noteq> PageBreak"
    using build_anton_story_total[of e "last people"] by simp
qed

lemma generate_grouped:
  assumes "rows \<noteq> []" "one_doc e"
  shows "generate e ts rows =
     Inr (map (\<lambda>(cls, people). (output_filename cls ts,
                 join [PageBreak] (map (person_blocks e) people))) (classes_loop e rows []))"
  using assms by (simp add: generate_def docs_loop_map)

lemma cls_of_class: "strip (Klasse r) = ''7a'' \<Longrightarrow> cls_of e r = ''7a''"
  by (simp add: cls_of_def)

lemma cls_of_teacher:
  "strip (Klasse r) = [] \<Longrightarrow> group_setting e = ''2'' \<or> strip (Anrede r) \<noteq> [] \<Longrightarrow>
   cls_of e r = lehrkraefte"
  by (auto simp: cls_of_def)

text \<open>
  C5. In grouped mode (a non-empty input with the one-document setting) the run writes one
  document per group, and the story of a group is the content blocks of its people joined by
  single page breaks. The people of a group are the input records of that bucket in input
  order, and no group is empty. The content blocks of a person never contain a page break, so
  the story of a group of n >= 1 people has exactly n - 1 page breaks and does not end in one.
  In particular, three students of class "7a" followed by two records without a class code
  that count as teachers (by a salutation or by the teacher setting) give exactly two
  documents, the class document with 2 page breaks and the teacher document with 1.
\<close>

theorem generate_grouped_page_breaks:
  "(rows \<noteq> [] \<and> one_doc e \<longrightarrow>
      generate e ts rows =
        Inr (map (\<lambda>(cls, people). (output_filename cls ts,
                    join [PageBreak] (map (person_blocks e) people))) (classes_loop e rows []))
      \<and> (\<forall>(cls, people) \<in> set (classes_loop e rows []).
            people = filter (\<lambda>r. cls_of e r = cls) rows \<and> people \<noteq> []))
   \<and> build_anton_story e r = Inr (person_blocks e r)
   \<and> PageBreak \<notin> set (person_blocks e r)
   \<and> group_story e people = Inr (join [PageBreak] (map (person_blocks e) people))
   \<and> (people \<noteq> [] \<longrightarrow>
        count_list (join [PageBreak] (map (person_blocks e) people)) PageBreak = length people - 1
        \<and> last (join [PageBreak] (map (person_blocks e) people)) \<noteq> PageBreak)
   \<and> (one_doc e
        \<and> strip (Klasse s1) = ''7a'' \<and> strip (Klasse s2) = ''7a'' \<and> strip (Klasse s3) = ''7a''
        \<and> strip (Klasse t1) = [] \<and> strip (Klasse t2) = []
        \<and> (group_setting e = ''2'' \<or> (strip (Anrede t1) \<noteq> [] \<and> strip (Anrede t2) \<noteq> []))
      \<longrightarrow>
        generate e ts [s1, s2, s3, t1, t2] =
          Inr [(''7a_ANTON-Zugangsdaten_'' @ ts @ ''.pdf'',
                  join [PageBreak] (map (person_blocks e) [s1, s2, s3])),
               (lehrkraefte @ ''_Zugangsdaten_'' @ ts @ ''.pdf'',
                  join [PageBreak] (map (person_blocks e) [t1, t2]))]
        \<and> count_list (join [PageBreak] (map (person_blocks e) [s1, s2, s3])) PageBreak = 2
        \<and> count_list (join [PageBreak] (map (person_blocks e) [t1, t2])) PageBreak = 1)"
proof -
  have p1: "generate e ts rows =
        Inr (map (\<lambda>(cls, people). (output_filename cls ts,
                    join [PageBreak] (map (person_blocks e) people))) (classes_loop e rows []))
      \<and> (\<forall>(cls, people) \<in> set (classes_loop e rows []).
            people = filter (\<lambda>r. cls_of e r = cls) rows \<and> people \<noteq> [])"
    if "rows \<noteq> [] \<and> one_doc e"
    using that generate_grouped[of rows e ts] classes_loop_groups[of _ _ e rows] by auto
  have p2: "build_anton_story e r = Inr (person_blocks e r)" "PageBreak \<notin> set (person_blocks e r)"
    using build_anton_story_total[of e r] by simp_all
  have p3: "group_story e people = Inr (join [PageBreak] (map (person_blocks e) people))"
    by (rule group_story_join)
  have p4: "count_list (join [PageBreak] (map (person_blocks e) people)) PageBreak = length people - 1
        \<and> last (join [PageBreak] (map (person_blocks e) people)) \<noteq> PageBreak"
    if "people \<noteq> []"
    using page_breaks_of_group[OF that, of e] by simp
  have p5: "generate e ts [s1, s2, s3, t1, t2] =
          Inr [(''7a_ANTON-Zugangsdaten_'' @ ts @ ''.pdf'',
                  join [PageBreak] (map (person_blocks e) [s1, s2, s3])),
               (lehrkraefte @ ''_Zugangsdaten_'' @ ts @ ''.pdf'',
                  join [PageBreak] (map (person_blocks e) [t1, t2]))]
        \<and> count_list (join [PageBreak] (map (person_blocks e) [s1, s2, s3])) PageBreak = 2
        \<and> count_list (join [PageBreak] (map (person_blocks e) [t1, t2])) PageBreak = 1"
    if h: "one_doc e
        \<and> strip (Klasse s1) = ''7a'' \<and> strip (Klasse s2) = ''7a'' \<and> strip (Klasse s3) = ''7a''
        \<and> strip (Klasse t1) = [] \<and> strip (Klasse t2) = []
        \<and> (group_setting e = ''2'' \<or> (strip (Anrede t1) \<noteq> [] \<and> strip (Anrede t2) \<noteq> []))"
  proof -
    have c: "cls_of e s1 = ''7a''" "cls_of e s2 = ''7a''" "cls_of e s3 = ''7a''"
      using h by (simp_all add: cls_of_class)
    have t: "cls_of e t1 = lehrkraefte" "cls_of e t2 = lehrkraefte"
      using h by (auto intro: cls_of_teacher)
    have ne: "''7a'' \<noteq> lehrkraefte" by (simp add: lehrkraefte_def)
    have cl: "classes_loop e [s1, s2, s3, t1, t2] [] = [(''7a'', [s1, s2, s3]), (lehrkraefte, [t1, t2])]"
      using ne by (simp add: c t)
    have g: "generate e ts [s1, s2, s3, t1, t2] =
          Inr [(''7a_ANTON-Zugangsdaten_'' @ ts @ ''.pdf'',
                  join [PageBreak] (map (person_blocks e) [s1, s2, s3])),
               (lehrkraefte @ ''_Zugangsdaten_'' @ ts @ ''.pdf'',
                  join [PageBreak] (map (person_blocks e) [t1, t2]))]"
    proof -
      have "generate e ts [s1, s2, s3, t1, t2] =
          Inr (map (\<lambda>(cls, people). (output_filename cls ts,
                      join [PageBreak] (map (person_blocks e) people)))
                 (classes_loop e [s1, s2, s3, t1, t2] []))"
        using h by (intro generate_grouped) simp_all
      also have "\<dots> = Inr (map (\<lambda>(cls, people). (output_filename cls ts,
                      join [PageBreak] (map (person_blocks e) people)))
                 [(''7a'', [s1, s2, s3]), (lehrkraefte, [t1, t2])])"
        by (simp only: cl)
      also have "\<dots> = Inr [(''7a_ANTON-Zugangsdaten_'' @ ts @ ''.pdf'',
                  join [PageBreak] (map (person_blocks e) [s1, s2, s3])),
               (lehrkraefte @ ''_Zugangsdaten_'' @ ts @ ''.pdf'',
                  join [PageBreak] (map (person_blocks e) [t1, t2]))]"
        using ne by (simp add: output_filename_def)
      finally show ?thesis .
    qed
    have "count_list (join [PageBreak] (map (person_blocks e) [s1, s2, s3])) PageBreak = 2"
      using page_breaks_of_group(1)[of "[s1, s2, s3]" e] by simp
    moreover have "count_list (join [PageBreak] (map (person_blocks e) [t1, t2])) PageBreak = 1"
      using page_breaks_of_group(1)[of "[t1, t2]" e] by simp
    ultimately show ?thesis using g by simp
  qed
  from p1 p2 p3 p4 p5 show ?thesis by blast
qed

theorem generate_grouped_page_breaks_witness:
  "generate
     \<lparr>pdf_antonlink = [], pdf_schoolgroup = ''1'', pdf_onedoc = ''ja'', pdf_einzeln = ''nein'',
      logo_size = None, stringWidth = fixed_pitch_width\<rparr> ''2026-01-01_08-00-00''
     [\<lparr>Anrede = [], Vorname = ''Anna'', Nachname = ''Muster'', Klasse = ''7a'', Referenz = [], Code = ''aaaa''\<rparr>,
      \<lparr>Anrede = [], Vorname = ''Ben'', Nachname = ''Muster'', Klasse = ''7a'', Referenz = [], Code = ''bbbb''\<rparr>,
      \<lparr>Anrede = [], Vorname = ''Cem'', Nachname = ''Muster'', Klasse = ''7a'', Referenz = [], Code = ''cccc''\<rparr>,
      \<lparr>Anrede = ''Frau'', Vorname = ''Eva'', Nachname = ''Lehrer'', Klasse = [], Referenz = [], Code = ''dddd''\<rparr>,
      \<lparr>Anrede = ''Herr'', Vorname = ''Udo'', Nachname = ''Lehrer'', Klasse = [], Referenz = [], Code = ''eeee''\<rparr>]
   = Inr [(''7a_ANTON-Zugangsdaten_2026-01-01_08-00-00.pdf'',
           join [PageBreak] (map (person_blocks
             \<lparr>pdf_antonlink = [], pdf_schoolgroup = ''1'', pdf_onedoc = ''ja'', pdf_einzeln = ''nein'',
              logo_size = None, stringWidth = fixed_pitch_width\<rparr>)
             [\<lparr>Anrede = [], Vorname = ''Anna'', Nachname = ''Muster'', Klasse = ''7a'', Referenz = [], Code = ''aaaa''\<rparr>,
              \<lparr>Anrede = [], Vorname = ''Ben'', Nachname = ''Muster'', Klasse = ''7a'', Referenz = [], Code = ''bbbb''\<rparr>,
              \<lparr>Anrede = [], Vorname = ''Cem'', Nachname = ''Muster'', Klasse = ''7a'', Referenz = [], Code = ''cccc''\<rparr>])),
          (lehrkraefte @ ''_Zugangsdaten_2026-01-01_08-00-00.pdf'',
           join [PageBreak] (map (person_blocks
             \<lparr>pdf_antonlink = [], pdf_schoolgroup = ''1'', pdf_onedoc = ''ja'', pdf_einzeln = ''nein'',
              logo_size = None, stringWidth = fixed_pitch_width\<rparr>)
             [\<lparr>Anrede = ''Frau'', Vorname = ''Eva'', Nachname = ''Lehrer'', Klasse = [], Referenz = [], Code = ''dddd''\<rparr>,
              \<lparr>Anrede = ''Herr'', Vorname = ''Udo'', Nachname = ''Lehrer'', Klasse = [], Referenz = [], Code = ''eeee''\<rparr>]))]
   \<and> count_list (join [PageBreak] (map (person_blocks
             \<lparr>pdf_antonlink = [], pdf_schoolgroup = ''1'', pdf_onedoc = ''ja'', pdf_einzeln = ''nein'',
              logo_size = None, stringWidth = fixed_pitch_width\<rparr>)
             [\<lparr>Anrede = [], Vorname = ''Anna'', Nachname = ''Muster'', Klasse = ''7a'', Referenz = [], Code = ''aaaa''\<rparr>,
              \<lparr>Anrede = [], Vorname = ''Ben'', Nachname = ''Muster'', Klasse = ''7a'', Referenz = [], Code = ''bbbb''\<rparr>,
              \<lparr>Anrede = [], Vorname = ''Cem'', Nachname = ''Muster'', Klasse = ''7a'', Referenz = [], Code = ''cccc''\<rparr>])) PageBreak = 2
   \<and> count_list (join [PageBreak] (map (person_blocks
             \<lparr>pdf_antonlink = [], pdf_schoolgroup = ''1'', pdf_onedoc = ''ja'', pdf_einzeln = ''nein'',
              logo_size = None, stringWidth = fixed_pitch_width\<rparr>)
             [\<lparr>Anrede = ''Frau'', Vorname = ''Eva'', Nachname = ''Lehrer'', Klasse = [], Referenz = [], Code = ''dddd''\<rparr>,
              \<lparr>Anrede = ''Herr'', Vorname = ''Udo'', Nachname = ''Lehrer'', Klasse = [], Referenz = [], Code = ''eeee''\<rparr>])) PageBreak = 1"
proof -
  let ?e = "\<lparr>pdf_antonlink = [], pdf_schoolgroup = ''1'', pdf_onedoc = ''ja'', pdf_einzeln = ''nein'',
      logo_size = None, stringWidth = fixed_pitch_width\<rparr>"
  let ?s1 = "\<lparr>Anrede = [], Vorname = ''Anna'', Nachname = ''Muster'', Klasse = ''7a'', Referenz = [], Code = ''aaaa''\<rparr>"
  let ?s2 = "\<lparr>Anrede = [], Vorname = ''Ben'', Nachname = ''Muster'', Klasse = ''7a'', Referenz = [], Code = ''bbbb''\<rparr>"
  let ?s3 = "\<lparr>Anrede = [], Vorname = ''Cem'', Nachname = ''Muster'', Klasse = ''7a'', Referenz = [], Code = ''cccc''\<rparr>"
  let ?t1 = "\<lparr>Anrede = ''Frau'', Vorname = ''Eva'', Nachname = ''Lehrer'', Klasse = [], Referenz = [], Code = ''dddd''\<rparr>"
  let ?t2 = "\<lparr>Anrede = ''Herr'', Vorname = ''Udo'', Nachname = ''Lehrer'', Klasse = [], Referenz = [], Code = ''eeee''\<rparr>"
  have od: "one_doc ?e" by (simp add: one_doc_def lower_def strip_def isspace_def lower_char_def)
  have k: "strip (Klasse ?s1) = ''7a''" "strip (Klasse ?s2) = ''7a''" "strip (Klasse ?s3) = ''7a''"
      "strip (Klasse ?t1) = []" "strip (Klasse ?t2) = []"
      "strip (Anrede ?t1) \<noteq> []" "strip (Anrede ?t2) \<noteq> []"
    by (simp_all add: strip_def isspace_def)
  have hyp: "one_doc ?e
        \<and> strip (Klasse ?s1) = ''7a'' \<and> strip (Klasse ?s2) = ''7a'' \<and> strip (Klasse ?s3) = ''7a''
        \<and> strip (Klasse ?t1) = [] \<and> strip (Klasse ?t2) = []
        \<and> (group_setting ?e = ''2'' \<or> (strip (Anrede ?t1) \<noteq> [] \<and> strip (Anrede ?t2) \<noteq> []))"
    by (intro conjI disjI2 od k)
  note ex = generate_grouped_page_breaks[where e = ?e and ts = "''2026-01-01_08-00-00''"
      and rows = "[?s1, ?s2, ?s3, ?t1, ?t2]" and r = ?s1 and people = "[?s1, ?s2, ?s3]"
      and ?s1.0 = ?s1 and ?s2.0 = ?s2 and ?s3.0 = ?s3 and ?t1.0 = ?t1 and ?t2.0 = ?t2,
      THEN conjunct2, THEN conjunct2, THEN conjunct2, THEN conjunct2, THEN conjunct2,
      THEN mp, OF hyp]
  have app: "''7a_ANTON-Zugangsdaten_'' @ ''2026-01-01_08-00-00'' @ ''.pdf''
               = ''7a_ANTON-Zugangsdaten_2026-01-01_08-00-00.pdf''"
      "lehrkraefte @ ''_Zugangsdaten_'' @ ''2026-01-01_08-00-00'' @ ''.pdf''
               = lehrkraefte @ ''_Zugangsdaten_2026-01-01_08-00-00.pdf''"
    by simp_all
  show ?thesis using ex unfolding app .
qed

end
